theory Spec2Isabelle
  imports Complex_Main "HOL-Library.Sublist" "HOL-Library.Multiset"
begin

section \<open>Python strings\<close>

text \<open>
  A Python \<^verbatim>\<open>str\<close> is a sequence of Unicode code points, and \<^verbatim>\<open>cv_parser.py\<close> names
  three code points beyond ASCII in its patterns (the bullet U+2022, the en dash U+2013
  and the em dash U+2014). A string is therefore a list of code points, each a natural
  number; \<open>py ''abc''\<close> is the string of an ASCII literal.

  Whitespace is Python's full list. Letter case, \<^verbatim>\<open>\w\<close> and \<^verbatim>\<open>\d\<close> are those of ASCII:
  a code point above 127 is taken as uncased, not a digit and not a word character, so
  the character classes are exact on ASCII text and on the three code points above.
\<close>

type_synonym ustr = "nat list"

definition py :: "string \<Rightarrow> ustr" where
  "py s = map of_char s"

definition isspace :: "nat \<Rightarrow> bool" where
  "isspace c = ((9 \<le> c \<and> c \<le> 13) \<or> (28 \<le> c \<and> c \<le> 32) \<or> c = 133 \<or> c = 160
     \<or> c = 5760 \<or> (8192 \<le> c \<and> c \<le> 8202) \<or> c = 8232 \<or> c = 8233 \<or> c = 8239
     \<or> c = 8287 \<or> c = 12288)"

definition char_isupper :: "nat \<Rightarrow> bool" where
  "char_isupper c = (65 \<le> c \<and> c \<le> 90)"

definition char_islower :: "nat \<Rightarrow> bool" where
  "char_islower c = (97 \<le> c \<and> c \<le> 122)"

definition char_isdigit :: "nat \<Rightarrow> bool" where
  "char_isdigit c = (48 \<le> c \<and> c \<le> 57)"

definition char_isword :: "nat \<Rightarrow> bool" where
  "char_isword c = (char_isupper c \<or> char_islower c \<or> char_isdigit c \<or> c = 95)"

definition char_upper :: "nat \<Rightarrow> nat" where
  "char_upper c = (if char_islower c then c - 32 else c)"

definition char_lower :: "nat \<Rightarrow> nat" where
  "char_lower c = (if char_isupper c then c + 32 else c)"

text \<open>\<^verbatim>\<open>s.upper()\<close>, \<^verbatim>\<open>s.lower()\<close> and \<^verbatim>\<open>s.strip()\<close>.\<close>

definition upper :: "ustr \<Rightarrow> ustr" where
  "upper s = map char_upper s"

definition lower :: "ustr \<Rightarrow> ustr" where
  "lower s = map char_lower s"

definition strip :: "ustr \<Rightarrow> ustr" where
  "strip s = rev (dropWhile isspace (rev (dropWhile isspace s)))"

text \<open>\<^verbatim>\<open>s.split(sep)\<close> for a separator of one code point: \<^verbatim>\<open>"".split("\n")\<close> is \<^verbatim>\<open>[""]\<close>.\<close>

fun split_char :: "nat \<Rightarrow> ustr \<Rightarrow> ustr list" where
  "split_char sep [] = [[]]"
| "split_char sep (c # cs) =
     (if c = sep then [] # split_char sep cs
      else (case split_char sep cs of [] \<Rightarrow> [[c]] | p # ps \<Rightarrow> (c # p) # ps))"

text \<open>\<^verbatim>\<open>s.split()\<close>: the maximal runs of non-whitespace, \<open>cur\<close> being the run in progress.\<close>

fun split_ws_from :: "ustr \<Rightarrow> ustr \<Rightarrow> ustr list" where
  "split_ws_from cur [] = (if cur = [] then [] else [cur])"
| "split_ws_from cur (c # cs) =
     (if isspace c then (if cur = [] then split_ws_from [] cs else cur # split_ws_from [] cs)
      else split_ws_from (cur @ [c]) cs)"

definition split_ws :: "ustr \<Rightarrow> ustr list" where
  "split_ws s = split_ws_from [] s"

text \<open>
  \<^verbatim>\<open>s.isupper()\<close>: at least one cased character, and no lowercase one.
  \<^verbatim>\<open>s.istitle()\<close> as CPython computes it: an uppercase character may only follow an
  uncased one, a lowercase character only a cased one, and there is a cased character.
\<close>

definition str_isupper :: "ustr \<Rightarrow> bool" where
  "str_isupper s = (list_ex char_isupper s \<and> \<not> list_ex char_islower s)"

fun istitle_from :: "bool \<Rightarrow> bool \<Rightarrow> ustr \<Rightarrow> bool" where
  "istitle_from cased prev [] = cased"
| "istitle_from cased prev (c # cs) =
     (if char_isupper c then (if prev then False else istitle_from True True cs)
      else if char_islower c then (if prev then istitle_from True True cs else False)
      else istitle_from cased False cs)"

definition str_istitle :: "ustr \<Rightarrow> bool" where
  "str_istitle s = istitle_from False False s"

text \<open>\<^verbatim>\<open>sub in s\<close> for strings, and \<^verbatim>\<open>s.startswith(p)\<close>.\<close>

fun contains :: "ustr \<Rightarrow> ustr \<Rightarrow> bool" where
  "contains sub [] = (sub = [])"
| "contains sub (c # cs) = (if prefix sub (c # cs) then True else contains sub cs)"

definition startswith :: "ustr \<Rightarrow> ustr \<Rightarrow> bool" where
  "startswith s p = prefix p s"

text \<open>\<^verbatim>\<open>sep.join(xs)\<close> with a separator of one code point.\<close>

fun join_char :: "nat \<Rightarrow> ustr list \<Rightarrow> ustr" where
  "join_char sep [] = []"
| "join_char sep [x] = x"
| "join_char sep (x # y # ys) = x @ sep # join_char sep (y # ys)"

text \<open>
  The comprehension \<^verbatim>\<open>[line.strip() for line in text.split('\n') if line.strip()]\<close>, which
  four functions of the source open with.
\<close>

definition stripped_lines :: "ustr \<Rightarrow> ustr list" where
  "stripped_lines text = map strip (filter (\<lambda>line. strip line \<noteq> []) (split_char 10 text))"

section \<open>Regular expressions\<close>

text \<open>
  The patterns of the source use character classes, concatenation, alternation, greedy
  repetition and the end anchor. \<open>backtrack\<close> is a backtracking matcher: it returns what is
  left of the input after every way of matching a prefix, in the order in which Python's
  \<^verbatim>\<open>re\<close> tries them (the left alternative first, one more repetition before stopping),
  so the head of the list is the match \<^verbatim>\<open>re\<close> reports. The flag is \<^verbatim>\<open>re.IGNORECASE\<close>.
\<close>

datatype cc = Lit nat | Rng nat nat | Dig | Wrd | Spc

datatype regex =
    Set "cc list"
  | NSet "cc list"
  | Eps
  | Eol
  | Cat regex regex
  | Alt regex regex
  | Star regex

fun cc_match :: "bool \<Rightarrow> cc \<Rightarrow> nat \<Rightarrow> bool" where
  "cc_match ic (Lit l) c = (if ic then char_lower c = char_lower l else c = l)"
| "cc_match ic (Rng lo hi) c =
     ((lo \<le> c \<and> c \<le> hi) \<or>
      (ic \<and> ((lo \<le> char_lower c \<and> char_lower c \<le> hi) \<or> (lo \<le> char_upper c \<and> char_upper c \<le> hi))))"
| "cc_match ic Dig c = char_isdigit c"
| "cc_match ic Wrd c = char_isword c"
| "cc_match ic Spc c = isspace c"

definition in_class :: "bool \<Rightarrow> cc list \<Rightarrow> nat \<Rightarrow> bool" where
  "in_class ic cs c = list_ex (\<lambda>k. cc_match ic k c) cs"

text \<open>
  Greedy repetition of a matcher \<open>f\<close>: one more round first, then stopping here. A round
  that consumes nothing is not repeated, so there are at most as many rounds as the
  input has code points: the first argument is a list of that length, one element
  spent for each round.
\<close>

fun many :: "ustr \<Rightarrow> (ustr \<Rightarrow> ustr list) \<Rightarrow> ustr \<Rightarrow> ustr list" where
  "many [] f s = [s]"
| "many (_ # fuel) f s =
     concat (map (many fuel f) (filter (\<lambda>t. length t < length s) (f s))) @ [s]"

fun backtrack :: "bool \<Rightarrow> regex \<Rightarrow> ustr \<Rightarrow> ustr list" where
  "backtrack ic (Set cs) s = (case s of [] \<Rightarrow> [] | c # t \<Rightarrow> if in_class ic cs c then [t] else [])"
| "backtrack ic (NSet cs) s = (case s of [] \<Rightarrow> [] | c # t \<Rightarrow> if in_class ic cs c then [] else [t])"
| "backtrack ic Eps s = [s]"
| "backtrack ic Eol s = (if s = [] \<or> s = [10] then [s] else [])"
| "backtrack ic (Cat a b) s = concat (map (backtrack ic b) (backtrack ic a s))"
| "backtrack ic (Alt a b) s = backtrack ic a s @ backtrack ic b s"
| "backtrack ic (Star a) s = many s (backtrack ic a) s"

text \<open>Derived forms: a literal string, \<^verbatim>\<open>r+\<close>, \<^verbatim>\<open>r?\<close>, \<^verbatim>\<open>r{n}\<close>, \<^verbatim>\<open>r{n,}\<close> and \<^verbatim>\<open>r{m,n}\<close>.\<close>

fun lit :: "ustr \<Rightarrow> regex" where
  "lit [] = Eps"
| "lit [c] = Set [Lit c]"
| "lit (c # cs) = Cat (Set [Lit c]) (lit cs)"

definition plus :: "regex \<Rightarrow> regex" where
  "plus r = Cat r (Star r)"

definition opt :: "regex \<Rightarrow> regex" where
  "opt r = Alt r Eps"

fun exactly :: "nat \<Rightarrow> regex \<Rightarrow> regex" where
  "exactly 0 r = Eps"
| "exactly (Suc 0) r = r"
| "exactly (Suc n) r = Cat r (exactly n r)"

definition at_least :: "nat \<Rightarrow> regex \<Rightarrow> regex" where
  "at_least n r = Cat (exactly n r) (Star r)"

fun up_to :: "nat \<Rightarrow> regex \<Rightarrow> regex" where
  "up_to 0 r = Eps"
| "up_to (Suc n) r = Alt (Cat r (up_to n r)) Eps"

definition between :: "nat \<Rightarrow> nat \<Rightarrow> regex \<Rightarrow> regex" where
  "between lo hi r = Cat (exactly lo r) (up_to (hi - lo) r)"

fun alts :: "regex list \<Rightarrow> regex" where
  "alts [] = NSet [Rng 0 1114111]"
| "alts [r] = r"
| "alts (r # rs) = Alt r (alts rs)"

text \<open>
  \<^verbatim>\<open>re.match\<close> (the match at position 0, if any), \<^verbatim>\<open>re.search\<close> (the leftmost match),
  \<^verbatim>\<open>re.findall\<close> and \<^verbatim>\<open>re.split\<close>, each giving the text matched, for a pattern whose
  only group, if it has one, is the whole pattern. \<^verbatim>\<open>re.match\<close> tries position 0 only, so
  a leading \<^verbatim>\<open>^\<close> of its pattern is left out. A pattern of the source never matches the
  empty string; after a match, \<open>skip\<close> is the part of it that the scan still has to pass.
\<close>

definition re_match :: "bool \<Rightarrow> regex \<Rightarrow> ustr \<Rightarrow> ustr option" where
  "re_match ic r s =
     (case backtrack ic r s of [] \<Rightarrow> None | t # _ \<Rightarrow> Some (take (length s - length t) s))"

fun re_search :: "bool \<Rightarrow> regex \<Rightarrow> ustr \<Rightarrow> ustr option" where
  "re_search ic r [] = re_match ic r []"
| "re_search ic r (c # cs) =
     (case re_match ic r (c # cs) of Some mt \<Rightarrow> Some mt | None \<Rightarrow> re_search ic r cs)"

fun findall_from :: "bool \<Rightarrow> regex \<Rightarrow> ustr \<Rightarrow> ustr \<Rightarrow> ustr list" where
  "findall_from ic r skip [] = (case re_match ic r [] of None \<Rightarrow> [] | Some mt \<Rightarrow> [mt])"
| "findall_from ic r (_ # skip) (c # cs) = findall_from ic r skip cs"
| "findall_from ic r [] (c # cs) =
     (case re_match ic r (c # cs) of
        None \<Rightarrow> findall_from ic r [] cs
      | Some mt \<Rightarrow> mt # findall_from ic r (tl mt) cs)"

definition re_findall :: "bool \<Rightarrow> regex \<Rightarrow> ustr \<Rightarrow> ustr list" where
  "re_findall ic r s = findall_from ic r [] s"

fun split_from :: "bool \<Rightarrow> regex \<Rightarrow> ustr \<Rightarrow> ustr \<Rightarrow> ustr \<Rightarrow> ustr list" where
  "split_from ic r skip cur [] = [cur]"
| "split_from ic r (_ # skip) cur (c # cs) = split_from ic r skip cur cs"
| "split_from ic r [] cur (c # cs) =
     (case re_match ic r (c # cs) of
        None \<Rightarrow> split_from ic r [] (cur @ [c]) cs
      | Some mt \<Rightarrow>
          (if mt = [] then split_from ic r [] (cur @ [c]) cs
           else cur # split_from ic r (tl mt) [] cs))"

definition re_split :: "bool \<Rightarrow> regex \<Rightarrow> ustr \<Rightarrow> ustr list" where
  "re_split ic r s = split_from ic r [] [] s"

section \<open>Dictionaries\<close>

text \<open>
  A Python \<^verbatim>\<open>dict\<close> keeps its keys in insertion order: it is a list of pairs with no key
  twice. \<open>dict_set\<close> is \<^verbatim>\<open>d[k] = v\<close> (a key already there keeps its place), \<open>dict_has\<close> is
  \<^verbatim>\<open>k in d\<close>, and \<open>dict_append\<close> is \<^verbatim>\<open>d[k].append(x)\<close> on a dictionary of lists.
\<close>

fun dict_set :: "('k \<times> 'v) list \<Rightarrow> 'k \<Rightarrow> 'v \<Rightarrow> ('k \<times> 'v) list" where
  "dict_set [] k v = [(k, v)]"
| "dict_set ((k', v') # d) k v = (if k' = k then (k, v) # d else (k', v') # dict_set d k v)"

definition dict_has :: "('k \<times> 'v) list \<Rightarrow> 'k \<Rightarrow> bool" where
  "dict_has d k = (map_of d k \<noteq> None)"

fun dict_append :: "('k \<times> 'v list) list \<Rightarrow> 'k \<Rightarrow> 'v \<Rightarrow> ('k \<times> 'v list) list" where
  "dict_append [] k x = []"
| "dict_append ((k', v) # d) k x =
     (if k' = k then (k', v @ [x]) # d else (k', v) # dict_append d k x)"

section \<open>The standard library's difflib\<close>

text \<open>
  \<^verbatim>\<open>get_close_matches(word, possibilities, n, cutoff)\<close> compares \<open>word\<close> with every
  possibility \<open>x\<close> through a \<^verbatim>\<open>SequenceMatcher\<close> whose first sequence \<open>a\<close> is \<open>x\<close> and whose
  second sequence \<open>b\<close> is \<open>word\<close>, with no junk predicate and \<^verbatim>\<open>autojunk\<close> on.

  The three ratios are \<open>2.0 * matches / length\<close> in floating point. They are rational
  numbers here: the quotient of two integers below \<open>10^15\<close>, correctly rounded, compares
  with the double nearest to \<open>0.7\<close> as the exact quotient compares with \<open>7/10\<close>.
\<close>

definition calculate_ratio :: "nat \<Rightarrow> nat \<Rightarrow> rat" where
  "calculate_ratio matches len = (if len \<noteq> 0 then 2 * of_nat matches / of_nat len else 1)"

definition real_quick_ratio :: "ustr \<Rightarrow> ustr \<Rightarrow> rat" where
  "real_quick_ratio a b = calculate_ratio (min (length a) (length b)) (length a + length b)"

text \<open>
  \<^verbatim>\<open>quick_ratio\<close>: \<open>avail\<close> holds, for each element of \<open>a\<close> seen so far, how many copies of
  it \<open>b\<close> still has to offer (the count goes below zero, as in the source).
\<close>

fun quick_matches :: "ustr \<Rightarrow> (nat \<rightharpoonup> int) \<Rightarrow> nat \<Rightarrow> ustr \<Rightarrow> nat" where
  "quick_matches b avail matches [] = matches"
| "quick_matches b avail matches (elt # a) =
     (case (case avail elt of Some n \<Rightarrow> n | None \<Rightarrow> int (count_list b elt)) of numb \<Rightarrow>
        quick_matches b (avail(elt \<mapsto> numb - 1)) (if numb > 0 then matches + 1 else matches) a)"

definition quick_ratio :: "ustr \<Rightarrow> ustr \<Rightarrow> rat" where
  "quick_ratio a b = calculate_ratio (quick_matches b Map.empty 0 a) (length a + length b)"

text \<open>
  \<^verbatim>\<open>__chain_b\<close>: \<open>b2j b c\<close> lists the positions of \<open>c\<close> in \<open>b\<close>, in increasing order. When
  \<open>b\<close> has 200 elements or more, an element that occurs more than \<open>len(b) // 100 + 1\<close>
  times is popular and has no entry. There is no junk predicate, so no element is junk.
\<close>

definition popular :: "ustr \<Rightarrow> nat \<Rightarrow> bool" where
  "popular b c = (200 \<le> length b \<and> length b div 100 + 1 < count_list b c)"

fun positions_from :: "nat \<Rightarrow> nat \<Rightarrow> ustr \<Rightarrow> nat list" where
  "positions_from c j [] = []"
| "positions_from c j (x # xs) =
     (if x = c then j # positions_from c (j + 1) xs else positions_from c (j + 1) xs)"

definition b2j :: "ustr \<Rightarrow> nat \<Rightarrow> nat list" where
  "b2j b c = (if popular b c then [] else positions_from c 0 b)"

text \<open>
  \<^verbatim>\<open>find_longest_match(alo, ahi, blo, bhi)\<close>. For each \<open>i\<close> the inner loop walks the
  positions \<open>j\<close> of \<open>a[i]\<close> in \<open>b\<close>, skipping those below \<open>blo\<close> and stopping at the first one
  not below \<open>bhi\<close>; \<open>j2len\<close> maps \<open>j\<close> to the length of the longest match ending with
  \<open>a[i-1]\<close> and \<open>b[j]\<close>. The best match is replaced only by a strictly longer one.
\<close>

definition j2len_get :: "(nat \<times> nat) list \<Rightarrow> nat \<Rightarrow> nat" where
  "j2len_get j2len j = (case map_of j2len j of None \<Rightarrow> 0 | Some k \<Rightarrow> k)"

fun flm_cell ::
  "(nat \<times> nat) list \<Rightarrow> nat \<Rightarrow> (nat \<times> nat) list \<times> nat \<times> nat \<times> nat \<Rightarrow> nat
     \<Rightarrow> (nat \<times> nat) list \<times> nat \<times> nat \<times> nat" where
  "flm_cell j2len i (newj2len, besti, bestj, bestsize) j =
     (case (if j = 0 then 0 else j2len_get j2len (j - 1)) + 1 of k \<Rightarrow>
        ((j, k) # newj2len,
         if bestsize < k then (i + 1 - k, j + 1 - k, k) else (besti, bestj, bestsize)))"

fun flm_row ::
  "ustr \<Rightarrow> ustr \<Rightarrow> nat \<Rightarrow> nat \<Rightarrow> (nat \<times> nat) list \<times> nat \<times> nat \<times> nat \<Rightarrow> nat
     \<Rightarrow> (nat \<times> nat) list \<times> nat \<times> nat \<times> nat" where
  "flm_row a b blo bhi (j2len, best) i =
     foldl (flm_cell j2len i) ([], best)
       (filter (\<lambda>j. blo \<le> j) (takeWhile (\<lambda>j. j < bhi) (b2j b (a ! i))))"

text \<open>
  The match is then extended at both ends over equal elements (those that are not
  junk: all of them). The loops that extend it over junk never run.
\<close>

function extend_left :: "ustr \<Rightarrow> ustr \<Rightarrow> nat \<Rightarrow> nat \<Rightarrow> nat \<times> nat \<times> nat \<Rightarrow> nat \<times> nat \<times> nat" where
  "extend_left a b alo blo (besti, bestj, bestsize) =
     (if alo < besti \<and> blo < bestj \<and> a ! (besti - 1) = b ! (bestj - 1)
      then extend_left a b alo blo (besti - 1, bestj - 1, bestsize + 1)
      else (besti, bestj, bestsize))"
  by pat_completeness auto
termination
  by (relation "measure (\<lambda>(a, b, alo, blo, besti, bestj, bestsize). besti)") auto

function extend_right :: "ustr \<Rightarrow> ustr \<Rightarrow> nat \<Rightarrow> nat \<Rightarrow> nat \<times> nat \<times> nat \<Rightarrow> nat \<times> nat \<times> nat" where
  "extend_right a b ahi bhi (besti, bestj, bestsize) =
     (if besti + bestsize < ahi \<and> bestj + bestsize < bhi
         \<and> a ! (besti + bestsize) = b ! (bestj + bestsize)
      then extend_right a b ahi bhi (besti, bestj, bestsize + 1)
      else (besti, bestj, bestsize))"
  by pat_completeness auto
termination
  by (relation "measure (\<lambda>(a, b, ahi, bhi, besti, bestj, bestsize). ahi - (besti + bestsize))") auto

definition find_longest_match ::
  "ustr \<Rightarrow> ustr \<Rightarrow> nat \<Rightarrow> nat \<Rightarrow> nat \<Rightarrow> nat \<Rightarrow> nat \<times> nat \<times> nat" where
  "find_longest_match a b alo ahi blo bhi =
     extend_right a b ahi bhi
       (extend_left a b alo blo
          (snd (foldl (flm_row a b blo bhi) ([], (alo, blo, 0)) [alo..<ahi])))"

text \<open>
  The longest match lies within the range of \<open>a\<close> it was looked for in. This is what
  makes the loop of \<^verbatim>\<open>get_matching_blocks\<close> below terminate.
\<close>

declare extend_left.simps [simp del] extend_right.simps [simp del]

lemma j2len_get_le:
  assumes "\<forall>p\<in>set j2len. snd p \<le> n"
  shows "j2len_get j2len j \<le> n"
proof (cases "map_of j2len j")
  case None
  then show ?thesis by (simp add: j2len_get_def)
next
  case (Some k)
  then have "(j, k) \<in> set j2len" by (rule map_of_SomeD)
  with assms have "snd (j, k) \<le> n" by blast
  then show ?thesis using Some by (simp add: j2len_get_def)
qed

definition flm_inv :: "nat \<Rightarrow> nat \<Rightarrow> (nat \<times> nat) list \<times> nat \<times> nat \<times> nat \<Rightarrow> bool" where
  "flm_inv alo n st = (case st of (j2len, besti, bestj, bestsize) \<Rightarrow>
     list_all (\<lambda>p. snd p \<le> n) j2len \<and> alo \<le> besti \<and> besti + bestsize \<le> alo + n)"

lemma flm_cell_inv:
  assumes "list_all (\<lambda>p. snd p \<le> n) j2len" and "flm_inv alo (Suc n) st"
  shows "flm_inv alo (Suc n) (flm_cell j2len (alo + n) st j)"
proof -
  obtain nj bi bj bs where st: "st = (nj, bi, bj, bs)" by (cases st) auto
  have "j2len_get j2len (j - 1) \<le> n"
    using assms(1) by (intro j2len_get_le) (simp add: list_all_iff)
  then show ?thesis
    using assms(2) by (auto simp: st flm_inv_def)
qed

lemma foldl_flm_cell_inv:
  assumes "list_all (\<lambda>p. snd p \<le> n) j2len" and "flm_inv alo (Suc n) st"
  shows "flm_inv alo (Suc n) (foldl (flm_cell j2len (alo + n)) st js)"
  using assms(2)
proof (induction js arbitrary: st)
  case Nil
  then show ?case by simp
next
  case (Cons j js)
  have "flm_inv alo (Suc n) (flm_cell j2len (alo + n) st j)"
    by (rule flm_cell_inv [OF assms(1) Cons.prems])
  from Cons.IH [OF this] show ?case by simp
qed

lemma flm_row_inv:
  assumes "flm_inv alo n st"
  shows "flm_inv alo (Suc n) (flm_row a b blo bhi st (alo + n))"
proof -
  obtain j2len bi bj bs where st: "st = (j2len, bi, bj, bs)" by (cases st) auto
  have 1: "list_all (\<lambda>p. snd p \<le> n) j2len" using assms by (simp add: st flm_inv_def)
  have 2: "flm_inv alo (Suc n) ([], bi, bj, bs)" using assms by (simp add: st flm_inv_def)
  show ?thesis
    unfolding st flm_row.simps by (rule foldl_flm_cell_inv [OF 1 2])
qed

lemma flm_rows_inv:
  "flm_inv alo n (foldl (flm_row a b blo bhi) ([], (alo, blo, 0)) [alo..<alo + n])"
proof (induction n)
  case 0
  show ?case by (simp add: flm_inv_def)
next
  case (Suc n)
  have "[alo..<alo + Suc n] = [alo..<alo + n] @ [alo + n]" by simp
  then show ?case using flm_row_inv [OF Suc] by simp
qed

lemma extend_left_bounds:
  "alo \<le> fst st \<Longrightarrow>
   alo \<le> fst (extend_left a b alo blo st) \<and>
   fst (extend_left a b alo blo st) + snd (snd (extend_left a b alo blo st)) = fst st + snd (snd st)"
proof (induction a b alo blo st rule: extend_left.induct)
  case (1 a b alo blo besti bestj bestsize)
  show ?case
  proof (cases "alo < besti \<and> blo < bestj \<and> a ! (besti - 1) = b ! (bestj - 1)")
    case True
    have "extend_left a b alo blo (besti, bestj, bestsize)
        = extend_left a b alo blo (besti - 1, bestj - 1, bestsize + 1)"
      by (subst extend_left.simps) (simp only: True if_True simp_thms)
    moreover have "alo \<le> fst (besti - 1, bestj - 1, bestsize + 1)"
      using True by auto
    moreover have "fst (besti - 1, bestj - 1, bestsize + 1) + snd (snd (besti - 1, bestj - 1, bestsize + 1))
        = besti + bestsize"
      using True by auto
    ultimately show ?thesis using "1.IH" [OF True] by simp
  next
    case False
    have "extend_left a b alo blo (besti, bestj, bestsize) = (besti, bestj, bestsize)"
      by (subst extend_left.simps) (simp only: False if_False)
    then show ?thesis using 1 by simp
  qed
qed

lemma extend_right_bounds:
  "fst st + snd (snd st) \<le> ahi \<Longrightarrow>
   fst (extend_right a b ahi bhi st) = fst st \<and>
   fst (extend_right a b ahi bhi st) + snd (snd (extend_right a b ahi bhi st)) \<le> ahi"
proof (induction a b ahi bhi st rule: extend_right.induct)
  case (1 a b ahi bhi besti bestj bestsize)
  show ?case
  proof (cases "besti + bestsize < ahi \<and> bestj + bestsize < bhi
         \<and> a ! (besti + bestsize) = b ! (bestj + bestsize)")
    case True
    have "extend_right a b ahi bhi (besti, bestj, bestsize)
        = extend_right a b ahi bhi (besti, bestj, bestsize + 1)"
      by (subst extend_right.simps) (simp only: True if_True simp_thms)
    moreover have "fst (besti, bestj, bestsize + 1) + snd (snd (besti, bestj, bestsize + 1)) \<le> ahi"
      using True by simp
    ultimately show ?thesis using "1.IH" [OF True] by simp
  next
    case False
    have "extend_right a b ahi bhi (besti, bestj, bestsize) = (besti, bestj, bestsize)"
      by (subst extend_right.simps) (simp only: False if_False)
    then show ?thesis using 1 by simp
  qed
qed

lemma find_longest_match_bounds:
  assumes "alo \<le> ahi" and "find_longest_match a b alo ahi blo bhi = (i, j, k)"
  shows "alo \<le> i \<and> i + k \<le> ahi"
proof -
  define st0 where "st0 = snd (foldl (flm_row a b blo bhi) ([], (alo, blo, 0)) [alo..<ahi])"
  have "flm_inv alo (ahi - alo) (foldl (flm_row a b blo bhi) ([], (alo, blo, 0)) [alo..<alo + (ahi - alo)])"
    by (rule flm_rows_inv)
  then have 0: "alo \<le> fst st0 \<and> fst st0 + snd (snd st0) \<le> ahi"
    using assms(1) by (auto simp: st0_def flm_inv_def split: prod.splits)
  define st1 where "st1 = extend_left a b alo blo st0"
  have 1: "alo \<le> fst st1 \<and> fst st1 + snd (snd st1) \<le> ahi"
    using extend_left_bounds [of alo st0 a b blo] 0 by (simp add: st1_def)
  have "find_longest_match a b alo ahi blo bhi = extend_right a b ahi bhi st1"
    by (simp add: find_longest_match_def st1_def st0_def)
  then have 2: "extend_right a b ahi bhi st1 = (i, j, k)"
    using assms(2) by simp
  have "fst st1 + snd (snd st1) \<le> ahi" using 1 by simp
  from extend_right_bounds [OF this, of a b bhi] 1 show ?thesis
    unfolding 2 by simp
qed

lemma find_longest_match_empty:
  assumes "\<not> alo \<le> ahi"
  shows "find_longest_match a b alo ahi blo bhi = (alo, blo, 0)"
proof -
  have 1: "[alo..<ahi] = []" using assms by simp
  have 2: "extend_left a b alo blo (alo, blo, 0) = (alo, blo, 0)"
    by (subst extend_left.simps) simp
  have 3: "extend_right a b ahi bhi (alo, blo, 0) = (alo, blo, 0)"
    using assms by (subst extend_right.simps) simp
  show ?thesis
    unfolding find_longest_match_def 1 by (simp only: foldl.simps snd_conv 2 3)
qed

text \<open>
  \<^verbatim>\<open>get_matching_blocks\<close>: the queue is a stack (\<^verbatim>\<open>pop()\<close> takes the entry appended last),
  its head here being the entry to pop next. The part of the two ranges on the left of
  a match is appended first, the part on its right second.
\<close>

function matching_blocks ::
  "ustr \<Rightarrow> ustr \<Rightarrow> (nat \<times> nat \<times> nat \<times> nat) list \<Rightarrow> (nat \<times> nat \<times> nat) list
     \<Rightarrow> (nat \<times> nat \<times> nat) list" where
  "matching_blocks a b [] blocks = blocks"
| "matching_blocks a b ((alo, ahi, blo, bhi) # queue) blocks =
     (case find_longest_match a b alo ahi blo bhi of (i, j, k) \<Rightarrow>
        if k \<noteq> 0
        then matching_blocks a b
               ((if i + k < ahi \<and> j + k < bhi then [(i + k, ahi, j + k, bhi)] else [])
                @ (if alo < i \<and> blo < j then [(alo, i, blo, j)] else []) @ queue)
               (blocks @ [(i, j, k)])
        else matching_blocks a b queue blocks)"
  by pat_completeness auto
termination
proof (relation "measure (\<lambda>(a, b, queue, blocks).
         sum_list (map (\<lambda>(alo, ahi, blo, bhi). 2 * (ahi - alo) + 1) queue))", goal_cases)
  case 1
  show ?case by simp
next
  case (2 a b alo ahi blo bhi queue blocks i y j k)
  then have flm: "find_longest_match a b alo ahi blo bhi = (i, j, k)" and k: "k \<noteq> 0" by auto
  have "alo \<le> ahi"
    using find_longest_match_empty [of alo ahi a b blo bhi] flm k by (cases "alo \<le> ahi") auto
  from find_longest_match_bounds [OF this flm] k show ?case by auto
next
  case 3
  then show ?case by simp
qed


text \<open>
  \<^verbatim>\<open>ratio\<close> sums the sizes of the matching blocks. \<^verbatim>\<open>get_matching_blocks\<close> sorts the
  blocks, merges adjacent ones and appends a block of size 0 before it returns them,
  none of which changes the sum.
\<close>

definition ratio :: "ustr \<Rightarrow> ustr \<Rightarrow> rat" where
  "ratio a b =
     calculate_ratio
       (sum_list (map (\<lambda>(i, j, k). k) (matching_blocks a b [(0, length a, 0, length b)] [])))
       (length a + length b)"

text \<open>
  A possibility is kept when the three ratios, tried in this order, reach the cutoff;
  \<^verbatim>\<open>and\<close> stops at the first that does not.
\<close>

definition is_close :: "ustr \<Rightarrow> rat \<Rightarrow> ustr \<Rightarrow> bool" where
  "is_close word cutoff x =
     (if cutoff \<le> real_quick_ratio x word
      then (if cutoff \<le> quick_ratio x word then cutoff \<le> ratio x word else False)
      else False)"

text \<open>
  The scored possibilities are pairs \<open>(score, x)\<close>, compared as Python compares tuples:
  by score, then by the strings, code point by code point. \<^verbatim>\<open>heapq.nlargest(n, result)\<close>
  is the first \<open>n\<close> of the pairs sorted from largest to smallest, equal pairs staying in
  their order.
\<close>

fun str_less :: "ustr \<Rightarrow> ustr \<Rightarrow> bool" where
  "str_less [] [] = False"
| "str_less [] (y # ys) = True"
| "str_less (x # xs) [] = False"
| "str_less (x # xs) (y # ys) = (if x = y then str_less xs ys else x < y)"

definition pair_less :: "rat \<times> ustr \<Rightarrow> rat \<times> ustr \<Rightarrow> bool" where
  "pair_less p q = (if fst p = fst q then str_less (snd p) (snd q) else fst p < fst q)"

fun insert_desc :: "rat \<times> ustr \<Rightarrow> (rat \<times> ustr) list \<Rightarrow> (rat \<times> ustr) list" where
  "insert_desc p [] = [p]"
| "insert_desc p (q # qs) = (if pair_less q p then p # q # qs else q # insert_desc p qs)"

definition nlargest :: "nat \<Rightarrow> (rat \<times> ustr) list \<Rightarrow> (rat \<times> ustr) list" where
  "nlargest n result = take n (foldl (\<lambda>sorted p. insert_desc p sorted) [] result)"

text \<open>
  The source calls \<^verbatim>\<open>get_close_matches\<close> with \<open>n = 1\<close> and \<open>cutoff = 0.7\<close>, which pass its
  checks of the arguments (\<open>n > 0\<close> and \<open>0 \<le> cutoff \<le> 1\<close>).
\<close>

definition get_close_matches :: "ustr \<Rightarrow> ustr list \<Rightarrow> nat \<Rightarrow> rat \<Rightarrow> ustr list" where
  "get_close_matches word possibilities n cutoff =
     map snd (nlargest n (map (\<lambda>x. (ratio x word, x)) (filter (is_close word cutoff) possibilities)))"

section \<open>Section headers\<close>

definition STANDARD_SECTIONS :: "ustr list" where
  "STANDARD_SECTIONS = map py
     [''ABOUT ME'', ''SUMMARY'', ''PROFILE'', ''OBJECTIVE'',
      ''EXPERIENCE'', ''WORK EXPERIENCE'', ''PROFESSIONAL EXPERIENCE'', ''EMPLOYMENT HISTORY'',
      ''EDUCATION'', ''ACADEMIC BACKGROUND'', ''QUALIFICATIONS'',
      ''SKILLS'', ''TECHNICAL SKILLS'', ''SOFT SKILLS'', ''LANGUAGE SKILLS'',
      ''PROJECTS'', ''RESEARCH PROJECTS'',
      ''CERTIFICATIONS'', ''TRAINING'', ''COURSES'',
      ''LANGUAGES'', ''LANGUAGE PROFICIENCY'',
      ''CONTACT'', ''CONTACT INFORMATION'', ''PERSONAL DETAILS'',
      ''INTERESTS'', ''HOBBIES'', ''ADDITIONAL ACTIVITIES'',
      ''VOLUNTEERING'', ''VOLUNTEER WORK'',
      ''AWARDS'', ''ACHIEVEMENTS'', ''HONORS'',
      ''PUBLICATIONS'', ''RESEARCH PAPERS'',
      ''REFERENCES'']"

definition normalize_section_header :: "ustr \<Rightarrow> ustr option" where
  "normalize_section_header header =
     (case strip (upper header) of header_upper \<Rightarrow>
        if header_upper \<in> set STANDARD_SECTIONS then Some header_upper
        else (case get_close_matches header_upper STANDARD_SECTIONS 1 (7 / 10) of
                m # _ \<Rightarrow> Some m
              | [] \<Rightarrow>
                 if contains (py ''WORK'') header_upper \<and> contains (py ''HISTORY'') header_upper
                 then Some (py ''WORK EXPERIENCE'')
                 else if contains (py ''EDUCATION'') header_upper
                         \<or> contains (py ''QUALIFICATION'') header_upper
                 then Some (py ''EDUCATION'')
                 else if contains (py ''CONTACT'') header_upper \<or> contains (py ''DETAILS'') header_upper
                 then Some (py ''CONTACT'')
                 else None))"


section \<open>Section segmentation\<close>

text \<open>
  The title pattern \<^verbatim>\<open>^[A-Z][a-z]+( [A-Z][a-z]+)*$\<close>, which \<^verbatim>\<open>identify_sections\<close> and
  \<^verbatim>\<open>extract_experience\<close> both match lines against.
\<close>

fun cats :: "regex list \<Rightarrow> regex" where
  "cats [] = Eps"
| "cats [r] = r"
| "cats (r # rs) = Cat r (cats rs)"

definition title_re :: regex where
  "title_re =
     cats [Set [Rng 65 90], plus (Set [Rng 97 122]),
           Star (cats [Set [Lit 32], Set [Rng 65 90], plus (Set [Rng 97 122])]), Eol]"

text \<open>
  The loop body of \<^verbatim>\<open>identify_sections\<close>. \<open>truthy\<close> is the truth value Python gives the
  result of \<^verbatim>\<open>normalize_section_header\<close>: \<^verbatim>\<open>None\<close> and the empty string are false.
\<close>

definition truthy :: "ustr option \<Rightarrow> bool" where
  "truthy h = (case h of None \<Rightarrow> False | Some s \<Rightarrow> s \<noteq> [])"

definition is_header :: "ustr \<Rightarrow> bool" where
  "is_header line =
     (if truthy (normalize_section_header line) then True
      else if str_isupper line \<and> length (split_ws line) \<le> 5 then True
      else if re_match False title_re line \<noteq> None \<and> length (split_ws line) \<le> 4 then True
      else False)"

definition section_name :: "ustr \<Rightarrow> ustr" where
  "section_name line =
     (case normalize_section_header line of
        None \<Rightarrow> upper line
      | Some h \<Rightarrow> if h \<noteq> [] then h else upper line)"

fun segment_line ::
  "(ustr \<times> ustr list) list \<times> ustr \<Rightarrow> ustr \<Rightarrow> (ustr \<times> ustr list) list \<times> ustr" where
  "segment_line (sections, current_section) line =
     (if is_header line
      then ((if dict_has sections (section_name line) then sections
             else dict_set sections (section_name line) []),
            section_name line)
      else (dict_append
              (if dict_has sections current_section then sections
               else dict_set sections current_section [])
              current_section line,
            current_section))"

definition identify_sections :: "ustr \<Rightarrow> (ustr \<times> ustr list) list" where
  "identify_sections text =
     fst (foldl segment_line
            ([(py ''GENERAL INFORMATION'', [])], py ''GENERAL INFORMATION'')
            (stripped_lines text))"

section \<open>Field extractors\<close>

subsection \<open>Education\<close>

text \<open>
  The three patterns of \<^verbatim>\<open>extract_education\<close>; the first two are searched for with
  \<^verbatim>\<open>re.IGNORECASE\<close>. The dashes are \<^verbatim>\<open>-\<close>, U+2013 and U+2014.
\<close>

definition degree_re :: regex where
  "degree_re = alts (map (\<lambda>w. lit (py w))
     [''Bachelor'', ''Master'', ''PhD'', ''B.Sc'', ''M.Sc'', ''Diploma'', ''Degree'', ''Licence'',
      ''Engineering''])"

definition institution_re :: regex where
  "institution_re = alts (map (\<lambda>w. lit (py w)) [''University'', ''School'', ''College'', ''Institute''])"

definition dash :: regex where
  "dash = Set [Lit 45, Lit 8211, Lit 8212]"

definition date_re :: regex where
  "date_re =
     cats [exactly 4 (Set [Dig]), opt (Set [Spc]), dash, opt (Set [Spc]),
           Alt (exactly 4 (Set [Dig])) (lit (py ''Present''))]"

text \<open>
  An entry is a dictionary. The state of the loop is the list of the entries appended
  so far and the entry in progress; an empty dictionary is false.
\<close>

fun education_line ::
  "(ustr \<times> ustr) list list \<times> (ustr \<times> ustr) list \<Rightarrow> ustr
     \<Rightarrow> (ustr \<times> ustr) list list \<times> (ustr \<times> ustr) list" where
  "education_line (education_list, current_edu) line =
     (if re_search True degree_re line \<noteq> None
      then (if current_edu \<noteq> []
            then (education_list @ [current_edu], dict_set [] (py ''degree'') line)
            else (education_list, dict_set current_edu (py ''degree'') line))
      else if re_search True institution_re line \<noteq> None
      then (education_list, dict_set current_edu (py ''institution'') line)
      else if re_search False date_re line \<noteq> None
      then (education_list, dict_set current_edu (py ''date'') line)
      else (education_list, current_edu))"

definition extract_education :: "ustr \<Rightarrow> (ustr \<times> ustr) list list" where
  "extract_education text =
     (case foldl education_line ([], []) (stripped_lines text) of
        (education_list, current_edu) \<Rightarrow>
          if current_edu \<noteq> [] then education_list @ [current_edu] else education_list)"

subsection \<open>Languages and skills\<close>

definition delimiter_re :: regex where
  "delimiter_re = Set [Lit 44, Lit 8226, Lit 10]"

definition extract_languages :: "ustr \<Rightarrow> ustr list" where
  "extract_languages text =
     map strip (filter (\<lambda>lang. strip lang \<noteq> []) (re_split False delimiter_re text))"

fun skills_loop :: "ustr list \<Rightarrow> ustr list \<Rightarrow> ustr list" where
  "skills_loop skills [] = skills"
| "skills_loop skills (item # items) =
     (if strip item \<noteq> [] \<and> length (split_ws (strip item)) \<le> 5
      then skills_loop (skills @ [strip item]) items
      else skills_loop skills items)"

definition extract_skills :: "ustr \<Rightarrow> ustr list" where
  "extract_skills text = skills_loop [] (re_split False delimiter_re text)"

subsection \<open>Contact\<close>

record contact_info =
  name :: "ustr option"
  email :: "ustr option"
  phone :: "ustr list"
  linkedin :: "ustr option"
  address :: "ustr option"
  website :: "ustr option"

text \<open>
  The patterns \<^verbatim>\<open>[\w\.-]+@[\w\.-]+\.\w+\<close>, \<^verbatim>\<open>(\+?\d[\d\s\-\(\)]{7,}\d)\<close>,
  \<^verbatim>\<open>(linkedin\.com/[^\s]+)\<close> and
  \<^verbatim>\<open>(\d{1,5}\s[\w\s]{3,},\s[\w\s]{3,},\s[A-Z]{2}\s\d{5})\<close>.
\<close>

definition email_re :: regex where
  "email_re =
     cats [plus (Set [Wrd, Lit 46, Lit 45]), Set [Lit 64], plus (Set [Wrd, Lit 46, Lit 45]),
           Set [Lit 46], plus (Set [Wrd])]"

definition phone_re :: regex where
  "phone_re =
     cats [opt (Set [Lit 43]), Set [Dig], at_least 7 (Set [Dig, Spc, Lit 45, Lit 40, Lit 41]),
           Set [Dig]]"

definition linkedin_re :: regex where
  "linkedin_re = Cat (lit (py ''linkedin.com/'')) (plus (NSet [Spc]))"

definition address_re :: regex where
  "address_re =
     cats [between 1 5 (Set [Dig]), Set [Spc], at_least 3 (Set [Wrd, Spc]), Set [Lit 44], Set [Spc],
           at_least 3 (Set [Wrd, Spc]), Set [Lit 44], Set [Spc], exactly 2 (Set [Rng 65 90]),
           Set [Spc], exactly 5 (Set [Dig])]"

definition name_like :: "ustr \<Rightarrow> bool" where
  "name_like line =
     ((str_istitle line \<or> str_isupper line)
      \<and> 1 < length (split_ws line) \<and> length (split_ws line) \<le> 4)"

definition extract_contact_info :: "ustr \<Rightarrow> contact_info" where
  "extract_contact_info text =
     \<lparr> name = find name_like (take 5 (stripped_lines text)),
       email = (case re_findall False email_re text of [] \<Rightarrow> None | e # _ \<Rightarrow> Some e),
       phone = map strip (re_findall False phone_re text),
       linkedin = map_option (\<lambda>g. py ''https://'' @ g) (re_search True linkedin_re text),
       address = re_search False address_re text,
       website = None \<rparr>"

subsection \<open>Experience\<close>

text \<open>
  The company pattern
  \<^verbatim>\<open>^[A-Z][a-zA-Z0-9& ]+,\s[A-Z][a-z]+\s\d{4}\s?[-...]\s?(\w+\s\d{4}|Present)\<close>, the
  pattern \<^verbatim>\<open>,\s|\s[-...]\s\<close> its line is split at, and the bullet pattern, a bullet
  (U+2022) and a whitespace. An entry maps a key to a string or to a list of strings.
\<close>

datatype field = Str ustr | Strs "ustr list"

definition company_re :: regex where
  "company_re =
     cats [Set [Rng 65 90], plus (Set [Rng 97 122, Rng 65 90, Rng 48 57, Lit 38, Lit 32]),
           Set [Lit 44], Set [Spc], Set [Rng 65 90], plus (Set [Rng 97 122]), Set [Spc],
           exactly 4 (Set [Dig]), opt (Set [Spc]), dash, opt (Set [Spc]),
           Alt (cats [plus (Set [Wrd]), Set [Spc], exactly 4 (Set [Dig])]) (lit (py ''Present''))]"

definition parts_re :: regex where
  "parts_re = Alt (Cat (Set [Lit 44]) (Set [Spc])) (cats [Set [Spc], dash, Set [Spc]])"

definition bullet_re :: regex where
  "bullet_re = Cat (Set [Lit 8226]) (Set [Spc])"

text \<open>
  \<^verbatim>\<open>current_exp["responsibilities"].append(x)\<close>, after the key was given an empty list
  if it was not there. The key never holds a string.
\<close>

definition append_responsibility :: "(ustr \<times> field) list \<Rightarrow> ustr \<Rightarrow> (ustr \<times> field) list" where
  "append_responsibility current_exp x =
     (case map_of current_exp (py ''responsibilities'') of
        Some (Strs rs) \<Rightarrow> dict_set current_exp (py ''responsibilities'') (Strs (rs @ [x]))
      | _ \<Rightarrow> dict_set current_exp (py ''responsibilities'') (Strs [x]))"

fun experience_line ::
  "(ustr \<times> field) list list \<times> (ustr \<times> field) list \<Rightarrow> ustr
     \<Rightarrow> (ustr \<times> field) list list \<times> (ustr \<times> field) list" where
  "experience_line (experiences, current_exp) line =
     (if re_match False title_re line \<noteq> None \<and> length (split_ws line) \<le> 5
      then (if current_exp \<noteq> []
            then (experiences @ [current_exp], dict_set [] (py ''title'') (Str line))
            else (experiences, dict_set current_exp (py ''title'') (Str line)))
      else if re_match False company_re line \<noteq> None
      then (case re_split False parts_re line of
              p0 # p1 # p2 # ps \<Rightarrow>
                (experiences,
                 dict_set (dict_set current_exp (py ''company'') (Str p0))
                   (py ''date'') (Str (join_char 32 (p1 # p2 # ps))))
            | _ \<Rightarrow> (experiences, current_exp))
      else if startswith line (py ''- '') \<or> re_match False bullet_re line \<noteq> None
      then (experiences, append_responsibility current_exp (strip (drop 2 line)))
      else (experiences, current_exp))"

definition extract_experience :: "ustr \<Rightarrow> (ustr \<times> field) list list" where
  "extract_experience text =
     (case foldl experience_line ([], []) (stripped_lines text) of
        (experiences, current_exp) \<Rightarrow>
          if current_exp \<noteq> [] then experiences @ [current_exp] else experiences)"

section \<open>The structured record\<close>

text \<open>
  The values of the record: the contact dictionary, a list of strings (skills,
  languages), the education and experience entries, or text (a section passed through,
  and the message of an error object).
\<close>

datatype "value" =
    Contact contact_info
  | Items "ustr list"
  | Education "(ustr \<times> ustr) list list"
  | Experience "(ustr \<times> field) list list"
  | Text ustr

text \<open>\<^verbatim>\<open>section.lower().replace(" ", "_")\<close>.\<close>

definition slug :: "ustr \<Rightarrow> ustr" where
  "slug section = map (\<lambda>c. if c = 32 then 95 else c) (lower section)"

fun structure_section :: "(ustr \<times> value) list \<Rightarrow> ustr \<times> ustr list \<Rightarrow> (ustr \<times> value) list" where
  "structure_section structured_data (section, content) =
     (if section \<in> set (map py [''CONTACT'', ''CONTACT INFORMATION''])
      then dict_set structured_data (py ''contact'')
             (Contact (extract_contact_info (join_char 10 content)))
      else if section \<in> set (map py [''SKILLS'', ''TECHNICAL SKILLS'', ''SOFT SKILLS''])
      then dict_set structured_data (py ''skills'') (Items (extract_skills (join_char 10 content)))
      else if section \<in> set (map py [''EXPERIENCE'', ''WORK EXPERIENCE''])
      then dict_set structured_data (py ''experience'')
             (Experience (extract_experience (join_char 10 content)))
      else if section = py ''EDUCATION''
      then dict_set structured_data (py ''education'')
             (Education (extract_education (join_char 10 content)))
      else if section = py ''LANGUAGES''
      then dict_set structured_data (py ''languages'')
             (Items (extract_languages (join_char 10 content)))
      else dict_set structured_data (slug section) (Text (join_char 10 content)))"

definition extract_structured_data :: "(ustr \<times> ustr list) list \<Rightarrow> (ustr \<times> value) list" where
  "extract_structured_data sections = foldl structure_section [] sections"

section \<open>The entry point\<close>

text \<open>
  What \<^verbatim>\<open>process_file\<close> reads from outside: whether the path exists, the extension
  \<^verbatim>\<open>os.path.splitext(file_path)[1]\<close>, and what extracting the text of the file as a PDF or
  as an image gives, either the text (\<open>Inr\<close>) or the message \<^verbatim>\<open>str(e)\<close> of the exception
  it raises (\<open>Inl\<close>). Segmentation and the extractors raise nothing.
\<close>

record file_env =
  path_exists :: bool
  path_ext :: ustr
  pdf_text :: "ustr + ustr"
  image_text :: "ustr + ustr"

definition error_object :: "ustr \<Rightarrow> (ustr \<times> value) list" where
  "error_object message = [(py ''error'', Text message)]"

definition process_file :: "file_env \<Rightarrow> (ustr \<times> value) list" where
  "process_file env =
     (if \<not> path_exists env then error_object (py ''File not found'')
      else
        (case (if lower (path_ext env) = py ''.pdf'' then Some (pdf_text env)
               else if lower (path_ext env) \<in> set (map py [''.png'', ''.jpg'', ''.jpeg''])
               then Some (image_text env)
               else None) of
           None \<Rightarrow> error_object (py ''Unsupported file type'')
         | Some (Inl e) \<Rightarrow> error_object e
         | Some (Inr text) \<Rightarrow>
             if strip text = [] then error_object (py ''No text could be extracted'')
             else extract_structured_data (identify_sections text)))"

section \<open>Definitions that follow the specification\<close>

text \<open>
  The functions of this section are not translations of the source: they say in
  another way what the specification says a function of the source computes, and are
  compared with it below.
\<close>

text \<open>
  Splitting a text at every code point that satisfies \<open>P\<close>, the pieces between them
  kept, empty ones too.
\<close>

fun split_where :: "(nat \<Rightarrow> bool) \<Rightarrow> ustr \<Rightarrow> ustr list" where
  "split_where P [] = [[]]"
| "split_where P (c # cs) =
     (if P c then [] # split_where P cs
      else (case split_where P cs of [] \<Rightarrow> [[c]] | p # ps \<Rightarrow> (c # p) # ps))"

text \<open>
  The key under which the record stores a section: one of the five fixed keys, or the
  slug of the section's name.
\<close>

definition output_key :: "ustr \<Rightarrow> ustr" where
  "output_key section =
     (if section \<in> set (map py [''CONTACT'', ''CONTACT INFORMATION'']) then py ''contact''
      else if section \<in> set (map py [''SKILLS'', ''TECHNICAL SKILLS'', ''SOFT SKILLS''])
      then py ''skills''
      else if section \<in> set (map py [''EXPERIENCE'', ''WORK EXPERIENCE'']) then py ''experience''
      else if section = py ''EDUCATION'' then py ''education''
      else if section = py ''LANGUAGES'' then py ''languages''
      else slug section)"

text \<open>An error object: a dictionary with the one key \<^verbatim>\<open>error\<close>, holding a message.\<close>

fun is_error_object :: "(ustr \<times> value) list \<Rightarrow> bool" where
  "is_error_object [(k, Text message)] = (k = py ''error'')"
| "is_error_object _ = False"

text \<open>
  The entries an accumulator starts, in the order of the document: the one it begins
  with, and a new, empty one at every trigger line. \<open>assign\<close> is what a line sets in the
  entry in progress.
\<close>

fun started_entries ::
  "(ustr \<Rightarrow> bool) \<Rightarrow> (('k \<times> 'v) list \<Rightarrow> ustr \<Rightarrow> ('k \<times> 'v) list) \<Rightarrow> ('k \<times> 'v) list \<Rightarrow> ustr list
     \<Rightarrow> ('k \<times> 'v) list list" where
  "started_entries trigger assign current [] = [current]"
| "started_entries trigger assign current (line # lines) =
     (if trigger line then current # started_entries trigger assign (assign [] line) lines
      else started_entries trigger assign (assign current line) lines)"

text \<open>
  Education: a degree-like line is the trigger; a line sets the degree, the institution
  or the date, the first of the three patterns it matches deciding, or nothing.
\<close>

definition degree_line :: "ustr \<Rightarrow> bool" where
  "degree_line line = (re_search True degree_re line \<noteq> None)"

definition education_fields :: "(ustr \<times> ustr) list \<Rightarrow> ustr \<Rightarrow> (ustr \<times> ustr) list" where
  "education_fields entry line =
     (if degree_line line then dict_set entry (py ''degree'') line
      else if re_search True institution_re line \<noteq> None
      then dict_set entry (py ''institution'') line
      else if re_search False date_re line \<noteq> None then dict_set entry (py ''date'') line
      else entry)"

text \<open>
  Experience: a title-like line of at most 5 words is the trigger; a line sets the
  title, or the company and the date (when splitting it gives 3 parts or more), or adds
  a responsibility, or nothing.
\<close>

definition title_line :: "ustr \<Rightarrow> bool" where
  "title_line line = (re_match False title_re line \<noteq> None \<and> length (split_ws line) \<le> 5)"

definition experience_fields :: "(ustr \<times> field) list \<Rightarrow> ustr \<Rightarrow> (ustr \<times> field) list" where
  "experience_fields entry line =
     (if title_line line then dict_set entry (py ''title'') (Str line)
      else if re_match False company_re line \<noteq> None
      then (case re_split False parts_re line of
              p0 # p1 # p2 # ps \<Rightarrow>
                dict_set (dict_set entry (py ''company'') (Str p0))
                  (py ''date'') (Str (join_char 32 (p1 # p2 # ps)))
            | _ \<Rightarrow> entry)
      else if startswith line (py ''- '') \<or> re_match False bullet_re line \<noteq> None
      then append_responsibility entry (strip (drop 2 line))
      else entry)"

section \<open>Definitions used in the proofs\<close>

text \<open>
  The lines of a text that are not headers, and what holds of the state of the loop of
  \<^verbatim>\<open>identify_sections\<close> after the lines \<open>lines\<close>: the current section is a key, and the
  section lists hold the lines that are not headers, each list in their order.
\<close>

definition content_lines :: "ustr list \<Rightarrow> ustr list" where
  "content_lines lines = filter (\<lambda>l. \<not> is_header l) lines"

definition segment_inv :: "ustr list \<Rightarrow> (ustr \<times> ustr list) list \<times> ustr \<Rightarrow> bool" where
  "segment_inv lines st =
     (dict_has (fst st) (snd st)
      \<and> mset (concat (map snd (fst st))) = mset (content_lines lines)
      \<and> list_all (\<lambda>s. subseq (snd s) (content_lines lines)) (fst st))"

text \<open>
  What an accumulator returns once its loop is over: the entries appended, then the
  entry in progress if it has a field.
\<close>

definition flush :: "'e list list \<times> 'e list \<Rightarrow> 'e list list" where
  "flush st = (if snd st \<noteq> [] then fst st @ [snd st] else fst st)"

section \<open>Evaluation\<close>

text \<open>The definitions the simplifier unfolds to evaluate the model on a concrete text.\<close>

lemmas str_defs = py_def upper_def lower_def strip_def isspace_def char_upper_def char_lower_def
  char_isupper_def char_islower_def char_isdigit_def char_isword_def

lemmas quick_defs = is_close_def real_quick_ratio_def quick_ratio_def calculate_ratio_def

lemmas ratio_defs = ratio_def calculate_ratio_def find_longest_match_def b2j_def popular_def
  j2len_get_def extend_left.simps extend_right.simps

lemma exactly_step: "1 < n \<Longrightarrow> exactly n r = Cat r (exactly (n - 1) r)"
proof (cases n)
  case 0
  assume "1 < n"
  with 0 show ?thesis by simp
next
  case (Suc m)
  assume "1 < n"
  with Suc show ?thesis by (cases m) simp_all
qed

lemma up_to_step: "0 < n \<Longrightarrow> up_to n r = Alt (Cat r (up_to (n - 1) r)) Eps"
  by (cases n) auto

lemmas re_defs = re_match_def re_findall_def re_split_def in_class_def plus_def opt_def
  at_least_def between_def exactly_step up_to_step

section \<open>Header normalisation\<close>

lemma set_insert_desc: "set (insert_desc p qs) = insert p (set qs)"
  by (induction qs) auto

lemma set_foldl_insert_desc:
  "set (foldl (\<lambda>sorted p. insert_desc p sorted) acc ps) = set acc \<union> set ps"
  by (induction ps arbitrary: acc) (auto simp: set_insert_desc)

lemma set_nlargest: "set (nlargest n ps) \<subseteq> set ps"
proof -
  have "set (nlargest n ps) \<subseteq> set (foldl (\<lambda>sorted p. insert_desc p sorted) [] ps)"
    unfolding nlargest_def by (rule set_take_subset)
  then show ?thesis by (simp add: set_foldl_insert_desc)
qed

lemma get_close_matches_subset:
  "set (get_close_matches word possibilities n cutoff) \<subseteq> set possibilities"
proof -
  have "set (get_close_matches word possibilities n cutoff)
      \<subseteq> snd ` set (map (\<lambda>x. (ratio x word, x)) (filter (is_close word cutoff) possibilities))"
    unfolding get_close_matches_def using set_nlargest by fastforce
  then show ?thesis by auto
qed

lemma fallback_names_standard:
  "py ''WORK EXPERIENCE'' \<in> set STANDARD_SECTIONS"
  "py ''EDUCATION'' \<in> set STANDARD_SECTIONS"
  "py ''CONTACT'' \<in> set STANDARD_SECTIONS"
  by (simp_all add: STANDARD_SECTIONS_def)

lemma normalize_section_header_standard:
  assumes "normalize_section_header x = Some c"
  shows "c \<in> set STANDARD_SECTIONS"
proof (cases "strip (upper x) \<in> set STANDARD_SECTIONS")
  case True
  then show ?thesis using assms by (simp add: normalize_section_header_def)
next
  case False
  show ?thesis
  proof (cases "get_close_matches (strip (upper x)) STANDARD_SECTIONS 1 (7 / 10)")
    case Nil
    then show ?thesis
      using assms False fallback_names_standard
      by (auto simp: normalize_section_header_def split: if_splits)
  next
    case (Cons m ms)
    then have "m \<in> set (get_close_matches (strip (upper x)) STANDARD_SECTIONS 1 (7 / 10))"
      by simp
    then have "m \<in> set STANDARD_SECTIONS"
      using get_close_matches_subset by blast
    then show ?thesis
      using assms False Cons by (simp add: normalize_section_header_def)
  qed
qed

lemma normalize_section_header_fixes_standard:
  "list_all (\<lambda>c. normalize_section_header c = Some c) STANDARD_SECTIONS"
  by (simp add: normalize_section_header_def STANDARD_SECTIONS_def str_defs)

lemma wrok_histroy_upper: "strip (upper (py ''WROK HISTROY'')) = py ''WROK HISTROY''"
  by (simp add: str_defs)

lemma wrok_histroy_not_close:
  "filter (is_close (py ''WROK HISTROY'') (7 / 10)) STANDARD_SECTIONS = []"
  by (simp add: STANDARD_SECTIONS_def py_def quick_defs)

lemma wrok_histroy_ratios:
  "list_all (\<lambda>x. ratio x (py ''WROK HISTROY'') < 7 / 10) STANDARD_SECTIONS"
  by (simp add: STANDARD_SECTIONS_def py_def ratio_defs)

lemma wrok_histroy_no_keyword:
  "\<not> contains (py ''WORK'') (py ''WROK HISTROY'')"
  "\<not> contains (py ''HISTORY'') (py ''WROK HISTROY'')"
  by (simp_all add: py_def)

lemma wrok_histroy_None: "normalize_section_header (py ''WROK HISTROY'') = None"
  unfolding normalize_section_header_def wrok_histroy_upper get_close_matches_def
    wrok_histroy_not_close
  by (simp add: nlargest_def py_def STANDARD_SECTIONS_def)

lemma work_history_upper: "strip (upper (py ''WORK HISTORY'')) = py ''WORK HISTORY''"
  by (simp add: str_defs)

lemma work_history_not_close:
  "filter (is_close (py ''WORK HISTORY'') (7 / 10)) STANDARD_SECTIONS = []"
  by (simp add: STANDARD_SECTIONS_def py_def quick_defs)

lemma work_history_Some:
  "normalize_section_header (py ''WORK HISTORY'') = Some (py ''WORK EXPERIENCE'')"
  unfolding normalize_section_header_def work_history_upper get_close_matches_def
    work_history_not_close
  by (simp add: nlargest_def py_def STANDARD_SECTIONS_def)

text \<open>
  C3, as the claim states it, fails: on the header \<^verbatim>\<open>"WROK HISTROY"\<close>
  \<^verbatim>\<open>normalize_section_header\<close> does not return \<^verbatim>\<open>WORK EXPERIENCE\<close>.
\<close>

theorem C3_wrok_histroy_counterexample:
  "normalize_section_header (py ''WROK HISTROY'') \<noteq> Some (py ''WORK EXPERIENCE'')"
  by (simp add: wrok_histroy_None)

text \<open>
  C3, amended: on the header \<^verbatim>\<open>"WROK HISTROY"\<close> \<^verbatim>\<open>normalize_section_header\<close> returns no
  match. No entry of the taxonomy reaches the ratio 0.7 with it, so the fuzzy step finds
  nothing, and it contains neither \<^verbatim>\<open>WORK\<close> nor \<^verbatim>\<open>HISTORY\<close>, so no keyword fallback fires.
  The correctly spelled \<^verbatim>\<open>"WORK HISTORY"\<close> does return \<^verbatim>\<open>WORK EXPERIENCE\<close>.
\<close>

theorem C3_wrok_histroy_no_match:
  "normalize_section_header (py ''WROK HISTROY'') = None
   \<and> list_all (\<lambda>x. ratio x (py ''WROK HISTROY'') < 7 / 10) STANDARD_SECTIONS
   \<and> get_close_matches (py ''WROK HISTROY'') STANDARD_SECTIONS 1 (7 / 10) = []
   \<and> \<not> contains (py ''WORK'') (py ''WROK HISTROY'')
   \<and> \<not> contains (py ''HISTORY'') (py ''WROK HISTROY'')
   \<and> normalize_section_header (py ''WORK HISTORY'') = Some (py ''WORK EXPERIENCE'')"
proof -
  have "get_close_matches (py ''WROK HISTROY'') STANDARD_SECTIONS 1 (7 / 10) = []"
    unfolding get_close_matches_def wrok_histroy_not_close by (simp add: nlargest_def)
  then show ?thesis
    using wrok_histroy_None wrok_histroy_ratios wrok_histroy_no_keyword work_history_Some
    by simp
qed

text \<open>
  C5: \<^verbatim>\<open>normalize_section_header\<close> is idempotent on its results: if it returns the
  canonical name \<open>c\<close> for a candidate \<open>x\<close>, it returns \<open>c\<close> for \<open>c\<close>.
\<close>

theorem C5_normalize_section_header_idempotent:
  assumes "normalize_section_header x = Some c"
  shows "normalize_section_header c = Some c"
proof -
  have "c \<in> set STANDARD_SECTIONS"
    using assms by (rule normalize_section_header_standard)
  then show ?thesis
    using normalize_section_header_fixes_standard by (simp add: list_all_iff)
qed

theorem C5_normalize_section_header_idempotent_witness:
  "normalize_section_header (py ''WORK HISTORY'') = Some (py ''WORK EXPERIENCE'')
   \<and> normalize_section_header (py ''WORK EXPERIENCE'') = Some (py ''WORK EXPERIENCE'')"
  using C5_normalize_section_header_idempotent [OF work_history_Some] work_history_Some
  by simp

text \<open>
  C10: the contact record returned by \<^verbatim>\<open>extract_contact_info\<close> has no website, whatever
  the text.
\<close>

theorem C10_website_unset: "website (extract_contact_info text) = None"
  by (simp add: extract_contact_info_def)

section \<open>Skills\<close>

lemma re_match_Set:
  "re_match ic (Set cls) (c # cs) = (if in_class ic cls c then Some [c] else None)"
  by (simp add: re_match_def)

lemma split_where_not_Nil: "split_where P s \<noteq> []"
  by (induction s) (auto split: list.splits)

lemma split_from_Set:
  "split_from ic (Set cls) [] cur s =
     (cur @ hd (split_where (in_class ic cls) s)) # tl (split_where (in_class ic cls) s)"
proof (induction s arbitrary: cur)
  case Nil
  show ?case by simp
next
  case (Cons c cs)
  obtain p ps where sw: "split_where (in_class ic cls) cs = p # ps"
    using split_where_not_Nil [of "in_class ic cls" cs]
    by (cases "split_where (in_class ic cls) cs") auto
  show ?case
  proof (cases "in_class ic cls c")
    case True
    have "split_from ic (Set cls) [] cur (c # cs) = cur # split_from ic (Set cls) [] [] cs"
      by (simp add: re_match_Set True)
    also have "\<dots> = cur # p # ps"
      by (simp only: Cons sw list.sel append_Nil)
    finally show ?thesis by (simp only: split_where.simps True if_True sw list.sel append_Nil2)
  next
    case False
    have "split_from ic (Set cls) [] cur (c # cs) = split_from ic (Set cls) [] (cur @ [c]) cs"
      by (simp add: re_match_Set False)
    also have "\<dots> = ((cur @ [c]) @ p) # ps"
      by (simp only: Cons sw list.sel)
    finally show ?thesis
      by (simp only: split_where.simps False if_False sw list.sel list.case append_assoc append_Cons append_Nil)
  qed
qed

lemma re_split_Set: "re_split ic (Set cls) s = split_where (in_class ic cls) s"
  using split_where_not_Nil [of "in_class ic cls" s]
  by (simp add: re_split_def split_from_Set)

lemma skills_loop_filter:
  "skills_loop skills items =
     skills @ filter (\<lambda>item. item \<noteq> [] \<and> length (split_ws item) \<le> 5) (map strip items)"
  by (induction items arbitrary: skills) auto

lemma delimiter_class:
  "in_class False [Lit 44, Lit 8226, Lit 10] = (\<lambda>c. c = 44 \<or> c = 8226 \<or> c = 10)"
  by (auto simp: in_class_def fun_eq_iff)

lemma extract_skills_filter:
  "extract_skills text =
     filter (\<lambda>item. item \<noteq> [] \<and> length (split_ws item) \<le> 5)
       (map strip (split_where (\<lambda>c. c = 44 \<or> c = 8226 \<or> c = 10) text))"
  by (simp add: extract_skills_def delimiter_re_def re_split_Set skills_loop_filter delimiter_class)


lemma scenario_B:
  "extract_skills (py ''Python, Project Management, Public Speaking\<newline>This is a long sentence that should be filtered out because it has too many words'')
     = [py ''Python'', py ''Project Management'', py ''Public Speaking'']"
  unfolding extract_skills_filter
  by (simp add: py_def strip_def isspace_def split_ws_def)

lemma skills_duplicates:
  "extract_skills (py ''SQL, Python \<newline> SQL'') = [py ''SQL'', py ''Python'', py ''SQL'']"
  unfolding extract_skills_filter
  by (simp add: py_def strip_def isspace_def split_ws_def)

text \<open>
  C7: \<^verbatim>\<open>extract_skills\<close> splits the text at commas, bullets (U+2022) and newlines, strips
  each piece, drops the empty pieces and those of more than 5 words, and returns the
  others in order, duplicates kept. On the text of scenario B it returns
  \<^verbatim>\<open>["Python", "Project Management", "Public Speaking"]\<close>.
\<close>

theorem C7_extract_skills:
  "extract_skills text =
     filter (\<lambda>item. item \<noteq> [] \<and> length (split_ws item) \<le> 5)
       (map strip (split_where (\<lambda>c. c = 44 \<or> c = 8226 \<or> c = 10) text))
   \<and> extract_skills (py ''Python, Project Management, Public Speaking\<newline>This is a long sentence that should be filtered out because it has too many words'')
       = [py ''Python'', py ''Project Management'', py ''Public Speaking'']
   \<and> extract_skills (py ''SQL, Python \<newline> SQL'') = [py ''SQL'', py ''Python'', py ''SQL'']"
  using extract_skills_filter scenario_B skills_duplicates by simp

section \<open>Contact\<close>






section \<open>Properties of the dictionary operations\<close>

lemma dict_set_absent: "\<not> dict_has d k \<Longrightarrow> dict_set d k v = d @ [(k, v)]"
  by (induction d) (auto simp: dict_has_def)

lemma dict_has_dict_set: "dict_has (dict_set d k v) k"
  by (induction d) (auto simp: dict_has_def)

lemma keys_dict_append: "map fst (dict_append d k x) = map fst d"
  by (induction d) auto

lemma dict_has_dict_append: "dict_has (dict_append d k x) k' = dict_has d k'"
  by (induction d) (auto simp: dict_has_def split: if_splits)

lemma dict_has_append_key: "dict_has (d @ [(k, v)]) k"
  unfolding dict_has_def map_of_eq_None_iff by simp

lemma subseq_set: "subseq xs ys \<Longrightarrow> set xs \<subseteq> set ys"
  by (induction rule: list_emb.induct) auto

lemma map_of_dict_append_same:
  "map_of d k = Some ls \<Longrightarrow> map_of (dict_append d k x) k = Some (ls @ [x])"
  by (induction d) auto

lemma map_of_dict_append_other:
  "k' \<noteq> k \<Longrightarrow> map_of (dict_append d k x) k' = map_of d k'"
  by (induction d) auto

lemma mset_concat_dict_append:
  "dict_has d k \<Longrightarrow>
   mset (concat (map snd (dict_append d k x))) = mset (concat (map snd d)) + {#x#}"
  by (induction d) (auto simp: dict_has_def)

lemma list_all_dict_append:
  assumes "list_all (\<lambda>s. Q (snd s)) d"
    and "\<And>v. Q v \<Longrightarrow> Q' v" and "\<And>v. Q v \<Longrightarrow> Q' (v @ [x])"
  shows "list_all (\<lambda>s. Q' (snd s)) (dict_append d k x)"
  using assms(1)
proof (induction d)
  case Nil
  show ?case by simp
next
  case (Cons e d)
  obtain k' v where e: "e = (k', v)" by (cases e)
  have "list_all (\<lambda>s. Q' (snd s)) d"
    using Cons.prems assms(2) by (auto simp: list_all_iff)
  then show ?case
    using Cons assms(2,3) by (auto simp: e)
qed

section \<open>Segmentation: what the section lists hold\<close>

lemma segment_line_header:
  "is_header line \<Longrightarrow>
   segment_line (sections, cur) line =
     (if dict_has sections (section_name line) then sections
      else sections @ [(section_name line, [])],
      section_name line)"
  by (simp add: dict_set_absent)

lemma segment_line_content:
  "\<not> is_header line \<Longrightarrow> dict_has sections cur \<Longrightarrow>
   segment_line (sections, cur) line = (dict_append sections cur line, cur)"
  by simp

lemma segment_inv_step:
  assumes "segment_inv lines st"
  shows "segment_inv (lines @ [line]) (segment_line st line)"
proof -
  obtain sections cur where st: "st = (sections, cur)" by (cases st)
  have has: "dict_has sections cur"
    and ms: "mset (concat (map snd sections)) = mset (content_lines lines)"
    and sub: "list_all (\<lambda>s. subseq (snd s) (content_lines lines)) sections"
    using assms by (simp_all add: segment_inv_def st)
  show ?thesis
  proof (cases "is_header line")
    case True
    have cl: "content_lines (lines @ [line]) = content_lines lines"
      using True by (simp add: content_lines_def)
    have "dict_has (if dict_has sections (section_name line) then sections
                    else sections @ [(section_name line, [])]) (section_name line)"
      by (simp add: dict_has_append_key)
    then show ?thesis
      unfolding st segment_line_header [OF True] segment_inv_def cl
      using ms sub by simp
  next
    case False
    have cl: "content_lines (lines @ [line]) = content_lines lines @ [line]"
      using False by (simp add: content_lines_def)
    have "list_all (\<lambda>s. subseq (snd s) (content_lines lines @ [line])) (dict_append sections cur line)"
      using sub by (rule list_all_dict_append) (simp_all add: subseq_rev_drop_many)
    then show ?thesis
      unfolding st segment_line_content [OF False has] segment_inv_def cl
      using ms has by (simp add: mset_concat_dict_append dict_has_dict_append)
  qed
qed

lemma segment_inv_foldl:
  "segment_inv [] st \<Longrightarrow> segment_inv lines (foldl segment_line st lines)"
proof (induction lines rule: rev_induct)
  case Nil
  then show ?case by simp
next
  case (snoc line lines)
  then show ?case by (simp add: segment_inv_step)
qed

lemma segment_inv_identify_sections:
  "segment_inv (stripped_lines text)
     (foldl segment_line ([(py ''GENERAL INFORMATION'', [])], py ''GENERAL INFORMATION'')
        (stripped_lines text))"
  by (rule segment_inv_foldl) (simp add: segment_inv_def dict_has_def content_lines_def)

lemma identify_sections_partition:
  "mset (concat (map snd (identify_sections text)))
     = mset (filter (\<lambda>l. \<not> is_header l) (stripped_lines text))
   \<and> list_all (\<lambda>s. subseq (snd s) (filter (\<lambda>l. \<not> is_header l) (stripped_lines text)))
       (identify_sections text)"
  using segment_inv_identify_sections [of "text"]
  by (simp add: segment_inv_def identify_sections_def content_lines_def)

lemma identify_sections_no_header:
  "list_all (\<lambda>s. list_all (\<lambda>l. \<not> is_header l) (snd s)) (identify_sections text)"
proof -
  have "list_all (\<lambda>s. subseq (snd s) (filter (\<lambda>l. \<not> is_header l) (stripped_lines text)))
       (identify_sections text)"
    using identify_sections_partition by blast
  then show ?thesis
    unfolding list_all_iff
  proof (intro ballI)
    fix s l
    assume all: "\<forall>s\<in>set (identify_sections text).
        subseq (snd s) (filter (\<lambda>l. \<not> is_header l) (stripped_lines text))"
      and s: "s \<in> set (identify_sections text)" and l: "l \<in> set (snd s)"
    from all s have "subseq (snd s) (filter (\<lambda>l. \<not> is_header l) (stripped_lines text))"
      by blast
    from subseq_set [OF this] l show "\<not> is_header l" by auto
  qed
qed

lemma py_eq_iff: "py a = py b \<longleftrightarrow> a = b"
  by (simp add: py_def inj_map_eq_map inj_on_def)

lemma header_SKILLS: "is_header (py ''SKILLS'')" "section_name (py ''SKILLS'') = py ''SKILLS''"
  by (simp_all add: is_header_def section_name_def truthy_def normalize_section_header_def
        STANDARD_SECTIONS_def str_defs)

lemma header_HOBBIES: "is_header (py ''HOBBIES'')" "section_name (py ''HOBBIES'') = py ''HOBBIES''"
  by (simp_all add: is_header_def section_name_def truthy_def normalize_section_header_def
        STANDARD_SECTIONS_def str_defs)

lemma no_close_match:
  "filter (is_close (py ''A1'') (7 / 10)) STANDARD_SECTIONS = []"
  "filter (is_close (py ''A2'') (7 / 10)) STANDARD_SECTIONS = []"
  "filter (is_close (py ''B1'') (7 / 10)) STANDARD_SECTIONS = []"
  by (simp_all add: STANDARD_SECTIONS_def py_def quick_defs)

lemma upper_a1:
  "strip (upper (py ''a1'')) = py ''A1''"
  "strip (upper (py ''a2'')) = py ''A2''"
  "strip (upper (py ''b1'')) = py ''B1''"
  by (simp_all add: str_defs)

lemma normalize_a1:
  "normalize_section_header (py ''a1'') = None"
  "normalize_section_header (py ''a2'') = None"
  "normalize_section_header (py ''b1'') = None"
  unfolding normalize_section_header_def upper_a1 get_close_matches_def no_close_match
  by (simp_all add: nlargest_def py_def STANDARD_SECTIONS_def)

lemma content_a1:
  "\<not> is_header (py ''a1'')" "\<not> is_header (py ''a2'')" "\<not> is_header (py ''b1'')"
  unfolding is_header_def normalize_a1
  by (simp_all add: truthy_def str_isupper_def title_re_def re_defs str_defs)

lemma lines_example:
  "stripped_lines (py ''SKILLS\<newline>a1\<newline>HOBBIES\<newline>b1\<newline>SKILLS\<newline>a2'')
     = [py ''SKILLS'', py ''a1'', py ''HOBBIES'', py ''b1'', py ''SKILLS'', py ''a2'']"
  by (simp add: stripped_lines_def str_defs)

lemma sections_example:
  "identify_sections (py ''SKILLS\<newline>a1\<newline>HOBBIES\<newline>b1\<newline>SKILLS\<newline>a2'')
     = [(py ''GENERAL INFORMATION'', []), (py ''SKILLS'', [py ''a1'', py ''a2'']),
        (py ''HOBBIES'', [py ''b1''])]"
  unfolding identify_sections_def lines_example
  by (simp add: header_SKILLS header_HOBBIES content_a1 dict_has_def py_eq_iff)

text \<open>
  C1, as the claim states it, fails. On the six lines below, the section lists hold
  three lines, not six: the header lines are in no list. And concatenated in the order
  the sections were inserted, they give \<^verbatim>\<open>a1, a2, b1\<close>, where the text has
  \<^verbatim>\<open>a1, b1, a2\<close>: the second \<^verbatim>\<open>SKILLS\<close> header goes back to the section of the first.
\<close>

theorem C1_lossless_partition_counterexample:
  "stripped_lines (py ''SKILLS\<newline>a1\<newline>HOBBIES\<newline>b1\<newline>SKILLS\<newline>a2'')
     = [py ''SKILLS'', py ''a1'', py ''HOBBIES'', py ''b1'', py ''SKILLS'', py ''a2'']
   \<and> concat (map snd (identify_sections (py ''SKILLS\<newline>a1\<newline>HOBBIES\<newline>b1\<newline>SKILLS\<newline>a2'')))
     = [py ''a1'', py ''a2'', py ''b1'']
   \<and> mset (concat (map snd (identify_sections (py ''SKILLS\<newline>a1\<newline>HOBBIES\<newline>b1\<newline>SKILLS\<newline>a2''))))
     \<noteq> mset (stripped_lines (py ''SKILLS\<newline>a1\<newline>HOBBIES\<newline>b1\<newline>SKILLS\<newline>a2''))
   \<and> filter (\<lambda>l. \<not> is_header l)
        (stripped_lines (py ''SKILLS\<newline>a1\<newline>HOBBIES\<newline>b1\<newline>SKILLS\<newline>a2''))
     = [py ''a1'', py ''b1'', py ''a2'']"
proof -
  have "size (mset [py ''a1'', py ''a2'', py ''b1''])
      \<noteq> size (mset [py ''SKILLS'', py ''a1'', py ''HOBBIES'', py ''b1'', py ''SKILLS'', py ''a2''])"
    by simp
  then have "mset [py ''a1'', py ''a2'', py ''b1'']
      \<noteq> mset [py ''SKILLS'', py ''a1'', py ''HOBBIES'', py ''b1'', py ''SKILLS'', py ''a2'']"
    by metis
  then show ?thesis
    unfolding sections_example lines_example
    by (simp add: header_SKILLS header_HOBBIES content_a1)
qed

text \<open>
  C1, amended: for every text, the section lists of \<^verbatim>\<open>identify_sections\<close> together hold
  exactly the non-empty stripped lines of the text that are not classified as headers,
  each as often as the text has it, and every section's list keeps the order its lines
  have in the text (it is a subsequence of the text's lines that are not headers).
\<close>

theorem C1_content_lines_partition:
  "mset (concat (map snd (identify_sections text)))
     = mset (filter (\<lambda>l. \<not> is_header l) (stripped_lines text))
   \<and> list_all (\<lambda>s. subseq (snd s) (filter (\<lambda>l. \<not> is_header l) (stripped_lines text)))
       (identify_sections text)"
  by (rule identify_sections_partition)

text \<open>
  C4: a header line only sets the current section, adding its name with an empty list
  when the name is new: the lists of the sections already there are left as they are,
  and the line is added to none. A content line is appended at the end of the current
  section's list, the other lists staying the same. No list \<^verbatim>\<open>identify_sections\<close>
  returns has a header line.
\<close>

theorem C4_header_lines:
  "(is_header line \<longrightarrow>
      segment_line (sections, cur) line =
        (if dict_has sections (section_name line) then sections
         else sections @ [(section_name line, [])],
         section_name line))
   \<and> (\<not> is_header line \<longrightarrow> map_of sections cur = Some ls \<longrightarrow>
        snd (segment_line (sections, cur) line) = cur
        \<and> map_of (fst (segment_line (sections, cur) line)) cur = Some (ls @ [line])
        \<and> (\<forall>k. k \<noteq> cur \<longrightarrow> map_of (fst (segment_line (sections, cur) line)) k = map_of sections k)
        \<and> map fst (fst (segment_line (sections, cur) line)) = map fst sections)
   \<and> list_all (\<lambda>s. list_all (\<lambda>l. \<not> is_header l) (snd s)) (identify_sections text)"
proof (intro conjI impI)
  assume "is_header line"
  then show "segment_line (sections, cur) line =
        (if dict_has sections (section_name line) then sections
         else sections @ [(section_name line, [])],
         section_name line)"
    by (rule segment_line_header)
next
  assume c: "\<not> is_header line" and m: "map_of sections cur = Some ls"
  then have has: "dict_has sections cur" by (simp add: dict_has_def)
  note eq = segment_line_content [OF c has]
  show "snd (segment_line (sections, cur) line) = cur"
    unfolding eq by simp
  show "map_of (fst (segment_line (sections, cur) line)) cur = Some (ls @ [line])"
    unfolding eq using m by (simp add: map_of_dict_append_same)
  show "\<forall>k. k \<noteq> cur \<longrightarrow> map_of (fst (segment_line (sections, cur) line)) k = map_of sections k"
    unfolding eq by (simp add: map_of_dict_append_other)
  show "map fst (fst (segment_line (sections, cur) line)) = map fst sections"
    unfolding eq by (simp add: keys_dict_append)
next
  show "list_all (\<lambda>s. list_all (\<lambda>l. \<not> is_header l) (snd s)) (identify_sections text)"
    by (rule identify_sections_no_header)
qed

theorem C4_header_lines_witness:
  "segment_line ([(py ''GENERAL INFORMATION'', []), (py ''SKILLS'', [py ''a1''])], py ''HOBBIES'')
       (py ''SKILLS'')
     = ([(py ''GENERAL INFORMATION'', []), (py ''SKILLS'', [py ''a1''])], py ''SKILLS'')
   \<and> map_of (fst (segment_line
          ([(py ''GENERAL INFORMATION'', []), (py ''SKILLS'', [py ''a1''])], py ''SKILLS'')
          (py ''a2''))) (py ''SKILLS'')
     = Some [py ''a1'', py ''a2'']"
  using
    C4_header_lines [of "py ''SKILLS''"
      "[(py ''GENERAL INFORMATION'', []), (py ''SKILLS'', [py ''a1''])]" "py ''HOBBIES''"]
    C4_header_lines [of "py ''a2''"
      "[(py ''GENERAL INFORMATION'', []), (py ''SKILLS'', [py ''a1''])]" "py ''SKILLS''"
      "[py ''a1'']"]
    header_SKILLS content_a1
  by (simp add: dict_has_def py_eq_iff del: segment_line.simps)

section \<open>The keys of the structured record\<close>

lemma keys_dict_set:
  "map fst (dict_set d k v) = (if k \<in> set (map fst d) then map fst d else map fst d @ [k])"
proof (induction d)
  case Nil
  show ?case by simp
next
  case (Cons e d)
  obtain k' v' where e: "e = (k', v')" by (cases e)
  show ?case
  proof (cases "k' = k")
    case True
    then show ?thesis by (simp add: e)
  next
    case False
    then show ?thesis using Cons by (auto simp: e)
  qed
qed

lemma keys_structure_section:
  "map fst (structure_section d (s, c)) =
     (if output_key s \<in> set (map fst d) then map fst d else map fst d @ [output_key s])"
  by (simp add: output_key_def keys_dict_set del: set_map)

lemma set_keys_structure_section:
  "set (map fst (structure_section d sc)) = insert (output_key (fst sc)) (set (map fst d))"
  by (cases sc) (auto simp: keys_structure_section simp del: structure_section.simps)

lemma set_keys_foldl_structure_section:
  "set (map fst (foldl structure_section d sections))
     = set (map fst d) \<union> output_key ` set (map fst sections)"
proof (induction sections arbitrary: d)
  case Nil
  show ?case by simp
next
  case (Cons sc sections)
  show ?case
    unfolding foldl_Cons Cons set_keys_structure_section by auto
qed

lemma keys_extract_structured_data:
  "set (map fst (extract_structured_data sections)) = output_key ` set (map fst sections)"
  by (simp add: extract_structured_data_def set_keys_foldl_structure_section del: set_map)

lemma keys_segment_line_mono:
  "k \<in> set (map fst (fst st)) \<Longrightarrow> k \<in> set (map fst (fst (segment_line st line)))"
  by (cases st) (auto simp: keys_dict_set keys_dict_append simp del: set_map)

lemma keys_foldl_segment_line_mono:
  "k \<in> set (map fst (fst st)) \<Longrightarrow> k \<in> set (map fst (fst (foldl segment_line st lines)))"
proof (induction lines arbitrary: st)
  case Nil
  then show ?case by simp
next
  case (Cons line lines)
  from Cons.IH [OF keys_segment_line_mono [OF Cons.prems]] show ?case by simp
qed

lemma general_information_section:
  "py ''GENERAL INFORMATION'' \<in> set (map fst (identify_sections text))"
  unfolding identify_sections_def
  by (rule keys_foldl_segment_line_mono) simp

lemma output_key_general_information:
  "output_key (py ''GENERAL INFORMATION'') = py ''general_information''"
  by (simp add: output_key_def slug_def str_defs)

lemma general_information_key:
  "py ''general_information'' \<in> set (map fst (extract_structured_data (identify_sections text)))"
  unfolding keys_extract_structured_data
  using general_information_section [of "text"] output_key_general_information
  by (metis imageI)

lemma header_EDUCATION:
  "is_header (py ''EDUCATION'')" "section_name (py ''EDUCATION'') = py ''EDUCATION''"
  by (simp_all add: is_header_def section_name_def truthy_def normalize_section_header_def
        STANDARD_SECTIONS_def str_defs)

lemma sections_EDUCATION:
  "identify_sections (py ''EDUCATION'')
     = [(py ''GENERAL INFORMATION'', []), (py ''EDUCATION'', [])]"
proof -
  have "stripped_lines (py ''EDUCATION'') = [py ''EDUCATION'']"
    by (simp add: stripped_lines_def str_defs)
  then show ?thesis
    unfolding identify_sections_def
    by (simp add: header_EDUCATION dict_has_def py_eq_iff)
qed

lemma output_key_EDUCATION: "output_key (py ''EDUCATION'') = py ''education''"
  by (simp add: output_key_def py_eq_iff)

text \<open>
  C2, as the claim states it, fails: a text whose only line is the header
  \<^verbatim>\<open>EDUCATION\<close> has no \<^verbatim>\<open>GENERAL INFORMATION\<close> section in it, and its record has the key
  \<^verbatim>\<open>general_information\<close> all the same.
\<close>

theorem C2_fixed_key_counterexample:
  "stripped_lines (py ''EDUCATION'') = [py ''EDUCATION'']
   \<and> map fst (extract_structured_data (identify_sections (py ''EDUCATION'')))
     = [py ''general_information'', py ''education'']"
proof -
  have "stripped_lines (py ''EDUCATION'') = [py ''EDUCATION'']"
    by (simp add: stripped_lines_def str_defs)
  moreover have "map fst (extract_structured_data (identify_sections (py ''EDUCATION'')))
     = [py ''general_information'', py ''education'']"
    unfolding sections_EDUCATION extract_structured_data_def
    by (simp add: keys_structure_section output_key_general_information output_key_EDUCATION
          py_eq_iff del: structure_section.simps)
  ultimately show ?thesis by simp
qed

text \<open>
  C2, amended: the keys of the record \<^verbatim>\<open>extract_structured_data\<close> builds are exactly the
  output keys of the sections of the mapping it is given, so a key is present only for
  a section of the mapping. The mapping \<^verbatim>\<open>identify_sections\<close> returns always has the
  section \<^verbatim>\<open>GENERAL INFORMATION\<close>, so the record of every text has the key
  \<^verbatim>\<open>general_information\<close>.
\<close>

theorem C2_record_keys:
  "set (map fst (extract_structured_data sections)) = output_key ` set (map fst sections)
   \<and> py ''GENERAL INFORMATION'' \<in> set (map fst (identify_sections text))
   \<and> py ''general_information'' \<in> set (map fst (extract_structured_data (identify_sections text)))"
  using keys_extract_structured_data general_information_section general_information_key
  by blast

section \<open>The entry point: record or error\<close>

lemma is_error_object_error_object: "is_error_object (error_object message)"
  by (simp add: error_object_def)

lemma keys_is_error_object: "is_error_object r \<Longrightarrow> map fst r = [py ''error'']"
  by (induction r rule: is_error_object.induct) simp_all

lemma record_not_error_object:
  "\<not> is_error_object (extract_structured_data (identify_sections t))"
proof
  assume "is_error_object (extract_structured_data (identify_sections t))"
  then have "map fst (extract_structured_data (identify_sections t)) = [py ''error'']"
    by (rule keys_is_error_object)
  then have "py ''general_information'' \<in> set [py ''error'']"
    using general_information_key [of t] by simp
  then show False by (simp add: py_eq_iff)
qed

lemma process_file_cases:
  "is_error_object (process_file env)
   \<or> (\<exists>t. strip t \<noteq> [] \<and> process_file env = extract_structured_data (identify_sections t))"
  by (auto simp: process_file_def is_error_object_error_object split: option.splits sum.splits)

lemma process_file_empty_pdf:
  assumes "path_exists env" and "lower (path_ext env) = py ''.pdf''"
    and "pdf_text env = Inr t" and "strip t = []"
  shows "process_file env = [(py ''error'', Text (py ''No text could be extracted''))]"
  using assms by (simp add: process_file_def error_object_def)

lemma process_file_empty_image:
  assumes "path_exists env" and "lower (path_ext env) \<in> set (map py [''.png'', ''.jpg'', ''.jpeg''])"
    and "image_text env = Inr t" and "strip t = []"
  shows "process_file env = [(py ''error'', Text (py ''No text could be extracted''))]"
proof -
  have "lower (path_ext env) \<noteq> py ''.pdf''"
    using assms(2) by (auto simp: py_eq_iff)
  then show ?thesis
    using assms by (simp add: process_file_def error_object_def)
qed

text \<open>
  C9: \<^verbatim>\<open>process_file\<close> returns an error object, a dictionary with the one key
  \<^verbatim>\<open>error\<close>, or the structured record of a text that is not blank, and never a value
  that is both. When the file exists, has a supported extension and the text extracted
  from it is empty or blank, it returns exactly the error object with the message
  \<^verbatim>\<open>No text could be extracted\<close>.
\<close>

theorem C9_process_file:
  "(is_error_object (process_file env)
    \<or> (\<exists>t. strip t \<noteq> [] \<and> process_file env = extract_structured_data (identify_sections t)))
   \<and> \<not> (is_error_object (process_file env)
          \<and> (\<exists>t. process_file env = extract_structured_data (identify_sections t)))
   \<and> (path_exists env \<longrightarrow> strip t = [] \<longrightarrow>
        (lower (path_ext env) = py ''.pdf'' \<and> pdf_text env = Inr t)
        \<or> (lower (path_ext env) \<in> set (map py [''.png'', ''.jpg'', ''.jpeg''])
            \<and> image_text env = Inr t) \<longrightarrow>
        process_file env = [(py ''error'', Text (py ''No text could be extracted''))])"
proof (intro conjI impI)
  show "is_error_object (process_file env)
    \<or> (\<exists>t. strip t \<noteq> [] \<and> process_file env = extract_structured_data (identify_sections t))"
    by (rule process_file_cases)
  show "\<not> (is_error_object (process_file env)
          \<and> (\<exists>t. process_file env = extract_structured_data (identify_sections t)))"
    using record_not_error_object by auto
next
  assume "path_exists env" and "strip t = []"
    and "(lower (path_ext env) = py ''.pdf'' \<and> pdf_text env = Inr t)
        \<or> (lower (path_ext env) \<in> set (map py [''.png'', ''.jpg'', ''.jpeg''])
            \<and> image_text env = Inr t)"
  then show "process_file env = [(py ''error'', Text (py ''No text could be extracted''))]"
    using process_file_empty_pdf [of env t] process_file_empty_image [of env t] by blast
qed

theorem C9_process_file_witness:
  "process_file \<lparr>path_exists = True, path_ext = py ''.PDF'', pdf_text = Inr (py ''  \<newline> ''),
       image_text = Inl (py ''not an image'')\<rparr>
     = [(py ''error'', Text (py ''No text could be extracted''))]
   \<and> process_file \<lparr>path_exists = True, path_ext = py ''.jpg'', pdf_text = Inl (py ''not a PDF''),
       image_text = Inr []\<rparr>
     = [(py ''error'', Text (py ''No text could be extracted''))]"
proof -
  have 1: "strip (py ''  \<newline> '') = []" "strip [] = []"
    by (simp_all add: str_defs)
  have 2: "lower (py ''.PDF'') = py ''.pdf''" "lower (py ''.jpg'') = py ''.jpg''"
    by (simp_all add: str_defs)
  show ?thesis
    using C9_process_file [of "\<lparr>path_exists = True, path_ext = py ''.PDF'',
            pdf_text = Inr (py ''  \<newline> ''), image_text = Inl (py ''not an image'')\<rparr>"
          "py ''  \<newline> ''"]
      C9_process_file [of "\<lparr>path_exists = True, path_ext = py ''.jpg'',
            pdf_text = Inl (py ''not a PDF''), image_text = Inr []\<rparr>" "[]"]
    by (simp add: 1 2 py_eq_iff)
qed

section \<open>The entry accumulators\<close>

lemma education_line_trigger:
  "degree_line line \<Longrightarrow>
   education_line (out, cur) line =
     (if cur \<noteq> [] then out @ [cur] else out, education_fields [] line)"
  by (simp add: degree_line_def education_fields_def)

lemma education_line_other:
  "\<not> degree_line line \<Longrightarrow> education_line (out, cur) line = (out, education_fields cur line)"
  by (simp add: degree_line_def education_fields_def)

lemma education_started_entries:
  "flush (foldl education_line (out, cur) lines)
     = out @ filter (\<lambda>e. e \<noteq> []) (started_entries degree_line education_fields cur lines)"
proof (induction lines arbitrary: out cur)
  case Nil
  show ?case by (simp add: flush_def)
next
  case (Cons line lines)
  show ?case
  proof (cases "degree_line line")
    case True
    show ?thesis
      unfolding foldl_Cons education_line_trigger [OF True] Cons
      using True by simp
  next
    case False
    show ?thesis
      unfolding foldl_Cons education_line_other [OF False] Cons
      using False by simp
  qed
qed

lemma experience_line_trigger:
  "title_line line \<Longrightarrow>
   experience_line (out, cur) line =
     (if cur \<noteq> [] then out @ [cur] else out, experience_fields [] line)"
  by (simp add: title_line_def experience_fields_def)

lemma experience_line_other:
  "\<not> title_line line \<Longrightarrow> experience_line (out, cur) line = (out, experience_fields cur line)"
  by (auto simp: title_line_def experience_fields_def split: list.splits)

lemma experience_started_entries:
  "flush (foldl experience_line (out, cur) lines)
     = out @ filter (\<lambda>e. e \<noteq> []) (started_entries title_line experience_fields cur lines)"
proof (induction lines arbitrary: out cur)
  case Nil
  show ?case by (simp add: flush_def)
next
  case (Cons line lines)
  show ?case
  proof (cases "title_line line")
    case True
    show ?thesis
      unfolding foldl_Cons experience_line_trigger [OF True] Cons
      using True by simp
  next
    case False
    show ?thesis
      unfolding foldl_Cons experience_line_other [OF False] Cons
      using False by simp
  qed
qed

lemma extract_education_flush:
  "extract_education t = flush (foldl education_line ([], []) (stripped_lines t))"
  by (simp add: extract_education_def flush_def split: prod.splits)

lemma extract_experience_flush:
  "extract_experience t = flush (foldl experience_line ([], []) (stripped_lines t))"
  by (simp add: extract_experience_def flush_def split: prod.splits)

lemma started_entries_length:
  "length (started_entries trigger assign cur lines) = Suc (length (filter trigger lines))"
  by (induction lines arbitrary: cur) auto

text \<open>
  C6: what \<^verbatim>\<open>extract_education\<close> and \<^verbatim>\<open>extract_experience\<close> return is the list of the
  entries started (the first one, and one more at every trigger line), in the order of
  the document, those with no field left out: each entry with a field is there once,
  and no entry without a field is there.
\<close>

theorem C6_entries_emitted_once:
  "extract_education t
     = filter (\<lambda>e. e \<noteq> []) (started_entries degree_line education_fields [] (stripped_lines t))
   \<and> extract_experience t
     = filter (\<lambda>e. e \<noteq> []) (started_entries title_line experience_fields [] (stripped_lines t))
   \<and> [] \<notin> set (extract_education t)
   \<and> [] \<notin> set (extract_experience t)"
proof -
  have 1: "extract_education t
     = filter (\<lambda>e. e \<noteq> []) (started_entries degree_line education_fields [] (stripped_lines t))"
    unfolding extract_education_flush education_started_entries by simp
  have 2: "extract_experience t
     = filter (\<lambda>e. e \<noteq> []) (started_entries title_line experience_fields [] (stripped_lines t))"
    unfolding extract_experience_flush experience_started_entries by simp
  have "[] \<notin> set (extract_education t)" "[] \<notin> set (extract_experience t)"
    unfolding 1 2 by simp_all
  with 1 2 show ?thesis by simp
qed

lemma education_example_lines:
  "stripped_lines (py ''Bachelor of Science\<newline>MIT University\<newline>2018 - 2022\<newline>Master of Arts\<newline>2022 - Present'')
   = [py ''Bachelor of Science'', py ''MIT University'', py ''2018 - 2022'', py ''Master of Arts'', py ''2022 - Present'']"
  by (simp add: stripped_lines_def str_defs)

lemmas edu_defs = degree_line_def education_fields_def degree_re_def institution_re_def date_re_def
  dash_def re_defs str_defs

lemma education_example_1: "degree_line (py ''Bachelor of Science'')"
  "education_fields [] (py ''Bachelor of Science'') = [(py ''degree'', py ''Bachelor of Science'')]"
  by (simp_all add: edu_defs)

lemma education_example_2: "\<not> degree_line (py ''MIT University'')"
  "education_fields e (py ''MIT University'') = dict_set e (py ''institution'') (py ''MIT University'')"
  by (simp_all add: edu_defs)

lemma education_example_3: "\<not> degree_line (py ''2018 - 2022'')"
  "education_fields e (py ''2018 - 2022'') = dict_set e (py ''date'') (py ''2018 - 2022'')"
  by (simp_all add: edu_defs)

lemma education_example_4: "degree_line (py ''Master of Arts'')"
  "education_fields [] (py ''Master of Arts'') = [(py ''degree'', py ''Master of Arts'')]"
  by (simp_all add: edu_defs)

lemma education_example_5: "\<not> degree_line (py ''2022 - Present'')"
  "education_fields e (py ''2022 - Present'') = dict_set e (py ''date'') (py ''2022 - Present'')"
  by (simp_all add: edu_defs)

theorem C6_entries_emitted_once_witness:
  "extract_education (py ''Bachelor of Science\<newline>MIT University\<newline>2018 - 2022\<newline>Master of Arts\<newline>2022 - Present'')
   = [[(py ''degree'', py ''Bachelor of Science''), (py ''institution'', py ''MIT University''),
       (py ''date'', py ''2018 - 2022'')],
      [(py ''degree'', py ''Master of Arts''), (py ''date'', py ''2022 - Present'')]]"
  using C6_entries_emitted_once [of "py ''Bachelor of Science\<newline>MIT University\<newline>2018 - 2022\<newline>Master of Arts\<newline>2022 - Present''"]
  unfolding education_example_lines
  by (simp add: education_example_1 education_example_2 education_example_3 education_example_4 education_example_5 py_eq_iff)

end
